theory Spec2Isabelle
  imports Main "HOL-Library.Word" "HOL-Library.Sublist"
begin

unbundle bit_operations_syntax

section \<open>Data model of the launch dispatcher\<close>

text \<open>
  The development embeds \<^verbatim>\<open>src/core/basicfilelauncher.cpp\<close>. The classes the file
  only uses (\<^verbatim>\<open>FilePath\<close>, \<^verbatim>\<open>FileInfo\<close>, \<^verbatim>\<open>GErrorPtr\<close>, the GIO and GLib calls) are
  declared elsewhere; they appear here as data with the constructors and accessors the
  source calls, and as parameters of the environment record \<open>env\<close>.
\<close>

text \<open>
  Modelled from the spec: the class \<^verbatim>\<open>FilePath\<close>, whose declaration is not part of the
  embedded file. A path is what one of the three factory functions the source calls
  made of a string, or the default-constructed path, which is what shortcut resolution
  returns when there is nothing to queue and the only path for which \<^verbatim>\<open>isValid()\<close> is
  false. What the accessors \<^verbatim>\<open>uri()\<close>, \<^verbatim>\<open>localPath()\<close> and \<^verbatim>\<open>hasUriScheme()\<close> return
  is left to the environment.
\<close>

datatype FilePath =
    NullPath
  | FromUri string
  | FromLocalPath string
  | FromPathStr string

definition isValid :: "FilePath \<Rightarrow> bool" where
  "isValid p = (p \<noteq> NullPath)"

text \<open>
  Modelled from the spec: the class \<^verbatim>\<open>FileInfo\<close>, the file reference of the
  specification's data model, with the attributes the dispatcher reads: path, target
  (empty when there is none), MIME-type name and the classification flags.
\<close>

record FileInfo =
  path :: FilePath
  target :: string
  mimeType :: string
  isDir :: bool
  isMountable :: bool
  isDesktopEntry :: bool
  isExecutableType :: bool
  isShortcut :: bool
  isNative :: bool

text \<open>Modelled from the spec: \<^verbatim>\<open>FileInfoList::paths()\<close>, the paths of the references of
  a list, in order.\<close>

definition paths :: "FileInfo list \<Rightarrow> FilePath list" where
  "paths files = map path files"

text \<open>Modelled from the spec: the enumeration \<^verbatim>\<open>ExecAction\<close> of the class declaration,
  the four launch actions.\<close>

datatype ExecAction = DIRECT_EXEC | EXEC_IN_TERMINAL | OPEN_WITH_DEFAULT_APP | CANCEL

text \<open>
  Errors: a \<^verbatim>\<open>GErrorPtr\<close> is either null or holds a code and a message. \<open>FROM_ERRNO\<close>
  stands for \<^verbatim>\<open>g_io_error_from_errno(errno)\<close>, \<open>PRIMITIVE\<close> for a code set by a launch
  primitive.
\<close>

datatype GIOErrorEnum = G_IO_ERROR_NOT_MOUNTED | G_IO_ERROR_FAILED | FROM_ERRNO nat | PRIMITIVE nat

datatype GError = GError GIOErrorEnum string

type_synonym GErrorPtr = "GError option"

text \<open>Application handles and launch contexts are opaque pointers; both may be null.\<close>

type_synonym GAppInfo = nat
type_synonym GAppInfoPtr = "GAppInfo option"
type_synonym GAppLaunchContext = "nat option"

text \<open>\<^verbatim>\<open>GAppInfoCreateFlags\<close>, a C \<^verbatim>\<open>int\<close> bit set.\<close>

definition G_APP_INFO_CREATE_NONE :: "32 word" where
  "G_APP_INFO_CREATE_NONE = 0"

definition G_APP_INFO_CREATE_NEEDS_TERMINAL :: "32 word" where
  "G_APP_INFO_CREATE_NEEDS_TERMINAL = push_bit 0 1"

section \<open>Process state and the calls that leave the dispatcher\<close>

text \<open>
  Every call to a collaborator (the error surface, the application resolver, the user
  decision, GIO, the file-info job, \<^verbatim>\<open>chdir\<close>) is recorded in a trace, in call order.
\<close>

datatype event =
    EShowError GAppLaunchContext GErrorPtr "FilePath option" "FileInfo option"
  | EChooseApp "FileInfo list" string
  | EAskExecFile FileInfo
  | EDefaultForType string
  | EDefaultForUriScheme string
  | ELaunchUris GAppInfoPtr "string list" GAppLaunchContext
  | EDesktopAppInfoNewFromFilename string
  | EDesktopAppInfoNew string
  | EFileTest "string option"
  | ECreateFromCommandline "string option" "32 word"
  | EAppInfoLaunch GAppInfo GAppLaunchContext
  | EChdir string
  | EWarning string
  | EFileInfoJob "FilePath list"

text \<open>
  The state the source reads and writes outside its own locals: the working directory of
  the process, named by the path last handed to a successful \<^verbatim>\<open>chdir\<close>, and the trace.
\<close>

record state =
  cwd :: string
  trace :: "event list"

definition record_event :: "event \<Rightarrow> state \<Rightarrow> state" where
  "record_event e s = s\<lparr>trace := trace s @ [e]\<rparr>"

text \<open>
  The collaborators. Each answer may depend on the state at the moment of the call (what
  has happened so far, where the process stands), so that a mount performed by the error
  surface, say, can change what the file-info job reports later. Pure library functions
  take no state. \<open>bucket_position\<close> is the hash table of the C++ library: given the keys of
  a \<^verbatim>\<open>std::unordered_map\<close> in order of insertion, the place of a key in a walk of the map.
  \<open>quickExec\<close> is the member \<^verbatim>\<open>quickExec_\<close>; \<open>showError_v\<close>, \<open>chooseApp_v\<close>
  and \<open>askExecFile_v\<close> are the overridable members of the class, whose bodies in this
  file are the defaults collected in \<open>base_policy\<close> below.
\<close>

record env =
  quickExec :: bool
  showError_v :: "state \<Rightarrow> GAppLaunchContext \<Rightarrow> GErrorPtr \<Rightarrow> FilePath option \<Rightarrow> FileInfo option \<Rightarrow> bool"
  chooseApp_v :: "state \<Rightarrow> FileInfo list \<Rightarrow> string \<Rightarrow> GAppInfoPtr \<times> GErrorPtr"
  askExecFile_v :: "state \<Rightarrow> FileInfo \<Rightarrow> ExecAction"
  g_app_info_get_default_for_type :: "state \<Rightarrow> string \<Rightarrow> GAppInfoPtr"
  g_app_info_get_default_for_uri_scheme :: "state \<Rightarrow> string \<Rightarrow> GAppInfoPtr"
  g_app_info_launch_uris :: "state \<Rightarrow> GAppInfoPtr \<Rightarrow> string list \<Rightarrow> GAppLaunchContext \<Rightarrow> bool \<times> GErrorPtr"
  g_desktop_app_info_new_from_filename :: "state \<Rightarrow> string \<Rightarrow> GAppInfoPtr"
  g_desktop_app_info_new :: "state \<Rightarrow> string \<Rightarrow> GAppInfoPtr"
  g_file_test_is_executable :: "state \<Rightarrow> string option \<Rightarrow> bool"
  fm_app_info_create_from_commandline :: "state \<Rightarrow> string option \<Rightarrow> 32 word \<Rightarrow> GAppInfoPtr"
  fm_app_info_launch :: "state \<Rightarrow> GAppInfo \<Rightarrow> GAppLaunchContext \<Rightarrow> bool \<times> GErrorPtr"
  sys_chdir :: "state \<Rightarrow> string \<Rightarrow> nat option"
  fileInfoJob :: "state \<Rightarrow> FilePath list \<Rightarrow> FileInfo list"
  g_uri_parse_scheme :: "string \<Rightarrow> string option"
  g_path_is_absolute :: "string \<Rightarrow> bool"
  g_shell_quote :: "string option \<Rightarrow> string option"
  g_path_get_dirname :: "string option \<Rightarrow> string option"
  g_strerror :: "nat \<Rightarrow> string"
  uri :: "FilePath \<Rightarrow> string"
  localPath :: "FilePath \<Rightarrow> string option"
  hasUriScheme :: "FilePath \<Rightarrow> string \<Rightarrow> bool"
  bucket_position :: "string list \<Rightarrow> string \<Rightarrow> nat"

text \<open>
  A call of the dispatcher ends in one of three ways: it returns a value and a state; it
  reads \<^verbatim>\<open>paths[0]\<close> of an empty list, which C++ leaves undefined; or the bound on the
  depth of re-dispatch is used up before it returns.
\<close>

datatype 'a result = Return 'a state | UndefinedBehaviour | OutOfFuel

section \<open>The overridable members\<close>

definition showError ::
  "env \<Rightarrow> GAppLaunchContext \<Rightarrow> GErrorPtr \<Rightarrow> FilePath option \<Rightarrow> FileInfo option \<Rightarrow> state \<Rightarrow> bool \<times> state" where
  "showError e ctx err p info s =
     (showError_v e s ctx err p info, record_event (EShowError ctx err p info) s)"

definition chooseApp ::
  "env \<Rightarrow> FileInfo list \<Rightarrow> string \<Rightarrow> state \<Rightarrow> (GAppInfoPtr \<times> GErrorPtr) \<times> state" where
  "chooseApp e fileInfos mime s =
     (chooseApp_v e s fileInfos mime, record_event (EChooseApp fileInfos mime) s)"

definition askExecFile :: "env \<Rightarrow> FileInfo \<Rightarrow> state \<Rightarrow> ExecAction \<times> state" where
  "askExecFile e file s = (askExecFile_v e s file, record_event (EAskExecFile file) s)"

text \<open>
  The bodies the source gives these members: \<^verbatim>\<open>showError\<close> returns false,
  \<^verbatim>\<open>chooseApp\<close> returns a null handle and leaves the error untouched, \<^verbatim>\<open>askExecFile\<close>
  returns \<^verbatim>\<open>DIRECT_EXEC\<close>, and the constructor clears \<^verbatim>\<open>quickExec_\<close>.
\<close>

definition base_policy :: "env \<Rightarrow> env" where
  "base_policy e = e\<lparr>
     quickExec := False,
     showError_v := (\<lambda>s ctx err p info. False),
     chooseApp_v := (\<lambda>s fileInfos mime. (None, None)),
     askExecFile_v := (\<lambda>s file. DIRECT_EXEC)\<rparr>"

section \<open>Generic application launch\<close>

text \<open>
  \<^verbatim>\<open>launchWithApp\<close>: the URI list is built with \<^verbatim>\<open>g_list_prepend\<close>, the primitive is
  called once, and on failure the error is reported against \<^verbatim>\<open>paths[0]\<close>, with no test
  that \<^verbatim>\<open>paths\<close> has an element.
\<close>

definition launchWithApp ::
  "env \<Rightarrow> GAppInfoPtr \<Rightarrow> FilePath list \<Rightarrow> GAppLaunchContext \<Rightarrow> state \<Rightarrow> bool result" where
  "launchWithApp e app ps ctx s =
     (let uris = foldl (\<lambda>us p. uri e p # us) [] ps;
          (ret, err) = g_app_info_launch_uris e s app uris ctx;
          s1 = record_event (ELaunchUris app uris ctx) s
      in if \<not> ret then
           (case ps of
              [] \<Rightarrow> UndefinedBehaviour
            | p0 # _ \<Rightarrow> Return ret (snd (showError e ctx err (Some p0) None s1)))
         else Return ret s1)"

text \<open>\<^verbatim>\<open>launchWithDefaultApp\<close>.\<close>

definition launchWithDefaultApp ::
  "env \<Rightarrow> FileInfo \<Rightarrow> GAppLaunchContext \<Rightarrow> state \<Rightarrow> bool result" where
  "launchWithDefaultApp e fileInfo ctx s =
     (let files = [fileInfo];
          app = g_app_info_get_default_for_type e s (mimeType fileInfo);
          s1 = record_event (EDefaultForType (mimeType fileInfo)) s
      in case app of
           Some a \<Rightarrow> launchWithApp e (Some a) (paths files) ctx s1
         | None \<Rightarrow> Return False (snd (showError e ctx None (Some (path fileInfo)) None s1)))"

text \<open>\<^verbatim>\<open>openFolder\<close>.\<close>

definition openFolder ::
  "env \<Rightarrow> GAppLaunchContext \<Rightarrow> FileInfo list \<Rightarrow> state \<Rightarrow> bool result" where
  "openFolder e ctx folderInfos s =
     (let ((app, err), s1) = chooseApp e folderInfos ''inode/directory'' s
      in case app of
           Some a \<Rightarrow>
             (case launchWithApp e (Some a) (paths folderInfos) ctx s1 of
                Return _ s2 \<Rightarrow> Return False s2
              | UndefinedBehaviour \<Rightarrow> UndefinedBehaviour
              | OutOfFuel \<Rightarrow> OutOfFuel)
         | None \<Rightarrow> Return False (snd (showError e ctx err None None s1)))"

text \<open>
  \<^verbatim>\<open>launchDesktopEntry(const char*, ...)\<close>: the identifier goes to the desktop-entry
  registry, by file name when it is an absolute path and by application id otherwise.
\<close>

definition invalid_desktop_entry_msg :: "string \<Rightarrow> string" where
  "invalid_desktop_entry_msg name =
     ''Invalid desktop entry file: '' @ [CHR 0x27] @ name @ [CHR 0x27]"

definition launchDesktopEntryName ::
  "env \<Rightarrow> string \<Rightarrow> FilePath list \<Rightarrow> GAppLaunchContext \<Rightarrow> state \<Rightarrow> bool result" where
  "launchDesktopEntryName e desktopEntryName ps ctx s =
     (let (app, s1) =
            (if g_path_is_absolute e desktopEntryName
             then (g_desktop_app_info_new_from_filename e s desktopEntryName,
                   record_event (EDesktopAppInfoNewFromFilename desktopEntryName) s)
             else (g_desktop_app_info_new e s desktopEntryName,
                   record_event (EDesktopAppInfoNew desktopEntryName) s))
      in case app of
           Some a \<Rightarrow> launchWithApp e (Some a) ps ctx s1
         | None \<Rightarrow>
             Return False
               (snd (showError e ctx
                  (Some (GError G_IO_ERROR_FAILED (invalid_desktop_entry_msg desktopEntryName)))
                  None None s1)))"

section \<open>Shortcut resolution\<close>

text \<open>\<^verbatim>\<open>handleShortcut\<close>.\<close>

definition handleShortcut ::
  "env \<Rightarrow> FileInfo \<Rightarrow> GAppLaunchContext \<Rightarrow> state \<Rightarrow> FilePath result" where
  "handleShortcut e fileInfo ctx s =
     (case g_uri_parse_scheme e (target fileInfo) of
        Some scheme \<Rightarrow>
          if scheme = ''file'' \<or> scheme = ''trash'' \<or> scheme = ''network''
               \<or> scheme = ''computer''
          then Return (FromUri (target fileInfo)) s
          else
            (let app = g_app_info_get_default_for_uri_scheme e s scheme;
                 s1 = record_event (EDefaultForUriScheme scheme) s;
                 uris = [FromUri (target fileInfo)]
             in case launchWithApp e app uris ctx s1 of
                  Return _ s2 \<Rightarrow> Return NullPath s2
                | UndefinedBehaviour \<Rightarrow> UndefinedBehaviour
                | OutOfFuel \<Rightarrow> OutOfFuel)
      | None \<Rightarrow> Return (FromLocalPath (target fileInfo)) s)"

section \<open>Executable launch\<close>

text \<open>
  \<^verbatim>\<open>chdir\<close>: on success the process stands in \<open>dir\<close> and the call returns 0 (\<open>None\<close>
  here); on failure nothing moves and \<^verbatim>\<open>errno\<close> is returned.
\<close>

definition chdir :: "env \<Rightarrow> string \<Rightarrow> state \<Rightarrow> nat option \<times> state" where
  "chdir e dir s =
     (case sys_chdir e s dir of
        None \<Rightarrow> (None, record_event (EChdir dir) (s\<lparr>cwd := dir\<rparr>))
      | Some errno \<Rightarrow> (Some errno, record_event (EChdir dir) s))"

definition chdir_failed_msg :: "env \<Rightarrow> string \<Rightarrow> nat \<Rightarrow> string" where
  "chdir_failed_msg e run_path errno =
     ''Cannot set working directory to '' @ [CHR 0x27] @ run_path @ [CHR 0x27] @ '': ''
       @ g_strerror e errno"

text \<open>
  The block of \<^verbatim>\<open>launchExecutable\<close> guarded by \<^verbatim>\<open>if(app)\<close>: enter the folder of the
  executable, launch, go back. \<open>saved\<close> is the local \<^verbatim>\<open>cwd\<close>, reset when the first
  \<^verbatim>\<open>chdir\<close> fails.
\<close>

definition launchExecutable_run ::
  "env \<Rightarrow> GAppInfo \<Rightarrow> string option \<Rightarrow> GAppLaunchContext \<Rightarrow> state \<Rightarrow> bool \<times> state" where
  "launchExecutable_run e app filename ctx s =
     (let run_path = g_path_get_dirname e filename;
          (saved, s1) =
            (case run_path of
               Some rp \<Rightarrow>
                 if rp \<noteq> ''.'' then
                   (case chdir e rp s of
                      (None, s') \<Rightarrow> (Some (cwd s), s')
                    | (Some errno, s') \<Rightarrow>
                        (None,
                         snd (showError e ctx
                           (Some (GError (FROM_ERRNO errno) (chdir_failed_msg e rp errno)))
                           None None s')))
                 else (None, s)
             | None \<Rightarrow> (None, s));
          (ok, err) = fm_app_info_launch e s1 app ctx;
          s2 = record_event (EAppInfoLaunch app ctx) s1;
          s3 = (if \<not> ok then snd (showError e ctx err None None s2) else s2);
          s4 =
            (case saved of
               Some d \<Rightarrow>
                 (case chdir e d s3 of
                    (None, s') \<Rightarrow> s'
                  | (Some _, s') \<Rightarrow>
                      record_event (EWarning ''fm_launch_files(): chdir() failed'') s')
             | None \<Rightarrow> s3)
      in (True, s4))"

text \<open>
  The body shared by the labels \<^verbatim>\<open>EXEC_IN_TERMINAL\<close> (which first sets the terminal
  flag and falls through) and \<^verbatim>\<open>DIRECT_EXEC\<close>.
\<close>

definition launchExecutable_exec ::
  "env \<Rightarrow> string option \<Rightarrow> 32 word \<Rightarrow> GAppLaunchContext \<Rightarrow> state \<Rightarrow> bool \<times> state" where
  "launchExecutable_exec e filename flags ctx s =
     (let quoted = g_shell_quote e filename;
          app = fm_app_info_create_from_commandline e s quoted flags;
          s1 = record_event (ECreateFromCommandline quoted flags) s
      in case app of
           Some a \<Rightarrow> launchExecutable_run e a filename ctx s1
         | None \<Rightarrow> (False, s1))"

text \<open>\<^verbatim>\<open>launchExecutable\<close>.\<close>

definition launchExecutable ::
  "env \<Rightarrow> FileInfo \<Rightarrow> GAppLaunchContext \<Rightarrow> state \<Rightarrow> bool result" where
  "launchExecutable e fileInfo ctx s =
     (let filename = localPath e (path fileInfo);
          s0 = record_event (EFileTest filename) s
      in if g_file_test_is_executable e s filename then
           (let (act, s1) =
                  (if quickExec e then (DIRECT_EXEC, s0) else askExecFile e fileInfo s0);
                flags = G_APP_INFO_CREATE_NONE
            in case act of
                 EXEC_IN_TERMINAL \<Rightarrow>
                   (case launchExecutable_exec e filename
                           (flags OR G_APP_INFO_CREATE_NEEDS_TERMINAL) ctx s1 of
                      (r, s2) \<Rightarrow> Return r s2)
               | DIRECT_EXEC \<Rightarrow>
                   (case launchExecutable_exec e filename flags ctx s1 of
                      (r, s2) \<Rightarrow> Return r s2)
               | OPEN_WITH_DEFAULT_APP \<Rightarrow> launchWithDefaultApp e fileInfo ctx s1
               | CANCEL \<Rightarrow> Return False s1)
         else Return False s0)"

section \<open>The dispatch\<close>

text \<open>The three locals of \<^verbatim>\<open>launchFiles\<close> that the classification loop fills.\<close>

record buckets =
  mimeTypeToFiles :: "(string \<times> FileInfo list) list"
  folderInfos :: "FileInfo list"
  pathsToLaunch :: "FilePath list"

definition no_buckets :: buckets where
  "no_buckets = \<lparr>mimeTypeToFiles = [], folderInfos = [], pathsToLaunch = []\<rparr>"

text \<open>
  \<^verbatim>\<open>mimeTypeToFiles[name].emplace_back(fileInfo)\<close>: the table holds one entry per key; a
  new key gets a fresh list. The entries are kept here in order of first insertion.
\<close>

fun emplace_back_at :: "string \<Rightarrow> FileInfo \<Rightarrow> (string \<times> FileInfo list) list \<Rightarrow> (string \<times> FileInfo list) list" where
  "emplace_back_at k v [] = [(k, [v])]"
| "emplace_back_at k v ((k', vs) # m) =
     (if k = k' then (k', vs @ [v]) # m else (k', vs) # emplace_back_at k v m)"

text \<open>
  \<^verbatim>\<open>for(auto& typeIt : mimeTypeToFiles)\<close>: C++ fixes only that the walk of a
  \<^verbatim>\<open>std::unordered_map\<close> meets every entry once; the order is the hash table's. The
  entries are met by increasing \<open>bucket_position\<close>, which can describe every order.
\<close>

definition walk_order :: "env \<Rightarrow> (string \<times> FileInfo list) list \<Rightarrow> (string \<times> FileInfo list) list" where
  "walk_order e tbl = sort_key (\<lambda>g. bucket_position e (map fst tbl) (fst g)) tbl"

text \<open>The second loop of \<^verbatim>\<open>launchFiles\<close>: one round per entry met.\<close>

fun launchFiles_mimeTypes ::
  "env \<Rightarrow> GAppLaunchContext \<Rightarrow> (string \<times> FileInfo list) list \<Rightarrow> state \<Rightarrow> unit result" where
  "launchFiles_mimeTypes e ctx [] s = Return () s"
| "launchFiles_mimeTypes e ctx ((mime, files) # rest) s =
     (let app0 = g_app_info_get_default_for_type e s mime;
          s1 = record_event (EDefaultForType mime) s;
          (app, s2) =
            (case app0 of
               None \<Rightarrow> (case chooseApp e files mime s1 of ((a, err), s') \<Rightarrow> (a, s'))
             | Some a \<Rightarrow> (Some a, s1))
      in case (case app of
                 Some a \<Rightarrow> launchWithApp e (Some a) (paths files) ctx s2
               | None \<Rightarrow> Return False s2) of
           Return _ s3 \<Rightarrow> launchFiles_mimeTypes e ctx rest s3
         | UndefinedBehaviour \<Rightarrow> UndefinedBehaviour
         | OutOfFuel \<Rightarrow> OutOfFuel)"

text \<open>
  \<^verbatim>\<open>launchFiles\<close>, \<^verbatim>\<open>launchPaths\<close> and \<^verbatim>\<open>launchDesktopEntry(const FileInfoPtr&, ...)\<close>
  call one another. The first argument bounds the depth of re-dispatch: \<^verbatim>\<open>launchPaths\<close>
  spends one unit for the \<^verbatim>\<open>launchFiles\<close> it starts, and a call that would go deeper
  than the bound ends in \<open>OutOfFuel\<close>.

  \<^item> \<open>launchFiles_step\<close> is the body of the classification loop for one reference;
  \<^item> \<open>launchFiles_classify\<close> is the loop;
  \<^item> \<open>launchDesktopEntry_tail\<close> is the end of \<^verbatim>\<open>launchDesktopEntry\<close>, from
    \<^verbatim>\<open>if(desktopEntryName)\<close> on, given the two locals set before it.
\<close>

function (sequential) launchPaths ::
      "nat \<Rightarrow> env \<Rightarrow> FilePath list \<Rightarrow> GAppLaunchContext \<Rightarrow> state \<Rightarrow> bool result"
  and launchDesktopEntry_tail ::
      "nat \<Rightarrow> env \<Rightarrow> string option \<Rightarrow> FilePath list \<Rightarrow> FilePath list \<Rightarrow> GAppLaunchContext \<Rightarrow> state \<Rightarrow> bool result"
  and launchDesktopEntry ::
      "nat \<Rightarrow> env \<Rightarrow> FileInfo \<Rightarrow> FilePath list \<Rightarrow> GAppLaunchContext \<Rightarrow> state \<Rightarrow> bool result"
  and launchFiles_step ::
      "nat \<Rightarrow> env \<Rightarrow> GAppLaunchContext \<Rightarrow> FileInfo \<Rightarrow> buckets \<Rightarrow> state \<Rightarrow> buckets result"
  and launchFiles_classify ::
      "nat \<Rightarrow> env \<Rightarrow> GAppLaunchContext \<Rightarrow> FileInfo list \<Rightarrow> buckets \<Rightarrow> state \<Rightarrow> buckets result"
  and launchFiles ::
      "nat \<Rightarrow> env \<Rightarrow> FileInfo list \<Rightarrow> GAppLaunchContext \<Rightarrow> state \<Rightarrow> bool result"
where
  "launchPaths 0 e ps ctx s = OutOfFuel"
| "launchPaths (Suc n) e ps ctx s =
     (let files = fileInfoJob e s ps;
          s1 = record_event (EFileInfoJob ps) s
      in case launchFiles n e files ctx s1 of
           Return _ s2 \<Rightarrow> Return False s2
         | UndefinedBehaviour \<Rightarrow> UndefinedBehaviour
         | OutOfFuel \<Rightarrow> OutOfFuel)"
| "launchDesktopEntry_tail n e desktopEntryName shortcutTargetPaths ps ctx s =
     (case desktopEntryName of
        Some name \<Rightarrow> launchDesktopEntryName e name ps ctx s
      | None \<Rightarrow>
          if shortcutTargetPaths \<noteq> [] then
            (case launchPaths n e shortcutTargetPaths ctx s of
               Return _ s1 \<Rightarrow> Return False s1
             | UndefinedBehaviour \<Rightarrow> UndefinedBehaviour
             | OutOfFuel \<Rightarrow> OutOfFuel)
          else Return False s)"
| "launchDesktopEntry n e fileInfo ps ctx s =
     (let tgt = target fileInfo in
      if isExecutableType fileInfo then
        (let (act, s1) =
               (if quickExec e then (DIRECT_EXEC, s) else askExecFile e fileInfo s)
         in if act = EXEC_IN_TERMINAL \<or> act = DIRECT_EXEC then
              (if isShortcut fileInfo then
                 (case handleShortcut e fileInfo ctx s1 of
                    Return p s2 \<Rightarrow>
                      launchDesktopEntry_tail n e None (if isValid p then [p] else []) ps ctx s2
                  | UndefinedBehaviour \<Rightarrow> UndefinedBehaviour
                  | OutOfFuel \<Rightarrow> OutOfFuel)
               else
                 launchDesktopEntry_tail n e
                   (if tgt \<noteq> [] then Some tgt else localPath e (path fileInfo)) [] ps ctx s1)
            else if act = OPEN_WITH_DEFAULT_APP then launchWithDefaultApp e fileInfo ctx s1
            else Return False s1)
      else if isNative fileInfo \<or> hasUriScheme e (path fileInfo) ''menu'' then
        launchDesktopEntry_tail n e
          (if tgt \<noteq> [] then Some tgt else localPath e (path fileInfo)) [] ps ctx s
      else launchDesktopEntry_tail n e None [] ps ctx s)"
| "launchFiles_step n e ctx fileInfo b s =
     (if isDir fileInfo then
        Return (b\<lparr>folderInfos := folderInfos b @ [fileInfo]\<rparr>) s
      else if isMountable fileInfo then
        (if target fileInfo = [] then
           (let err = Some (GError G_IO_ERROR_NOT_MOUNTED ''The path is not mounted.'');
                (handled, s1) = showError e ctx err (Some (path fileInfo)) (Some fileInfo) s
            in if \<not> handled then Return b s1
               else Return (b\<lparr>pathsToLaunch := pathsToLaunch b @ [path fileInfo]\<rparr>) s1)
         else
           Return (b\<lparr>pathsToLaunch := pathsToLaunch b @ [FromPathStr (target fileInfo)]\<rparr>) s)
      else if isDesktopEntry fileInfo then
        (case launchDesktopEntry n e fileInfo [] ctx s of
           Return _ s1 \<Rightarrow> Return b s1
         | UndefinedBehaviour \<Rightarrow> UndefinedBehaviour
         | OutOfFuel \<Rightarrow> OutOfFuel)
      else if isExecutableType fileInfo then
        (case launchExecutable e fileInfo ctx s of
           Return _ s1 \<Rightarrow> Return b s1
         | UndefinedBehaviour \<Rightarrow> UndefinedBehaviour
         | OutOfFuel \<Rightarrow> OutOfFuel)
      else if isShortcut fileInfo then
        (case handleShortcut e fileInfo ctx s of
           Return p s1 \<Rightarrow>
             Return (if isValid p then b\<lparr>pathsToLaunch := pathsToLaunch b @ [p]\<rparr> else b) s1
         | UndefinedBehaviour \<Rightarrow> UndefinedBehaviour
         | OutOfFuel \<Rightarrow> OutOfFuel)
      else
        Return (b\<lparr>mimeTypeToFiles :=
                   emplace_back_at (mimeType fileInfo) fileInfo (mimeTypeToFiles b)\<rparr>) s)"
| "launchFiles_classify n e ctx [] b s = Return b s"
| "launchFiles_classify n e ctx (fileInfo # rest) b s =
     (case launchFiles_step n e ctx fileInfo b s of
        Return b1 s1 \<Rightarrow> launchFiles_classify n e ctx rest b1 s1
      | UndefinedBehaviour \<Rightarrow> UndefinedBehaviour
      | OutOfFuel \<Rightarrow> OutOfFuel)"
| "launchFiles n e fileInfos ctx s =
     (case launchFiles_classify n e ctx fileInfos no_buckets s of
        Return b s1 \<Rightarrow>
          (case (if folderInfos b \<noteq> [] then openFolder e ctx (folderInfos b) s1
                 else Return False s1) of
             Return _ s2 \<Rightarrow>
               (case launchFiles_mimeTypes e ctx (walk_order e (mimeTypeToFiles b)) s2 of
                  Return _ s3 \<Rightarrow>
                    (case (if pathsToLaunch b \<noteq> [] then launchPaths n e (pathsToLaunch b) ctx s3
                           else Return False s3) of
                       Return _ s4 \<Rightarrow> Return True s4
                     | UndefinedBehaviour \<Rightarrow> UndefinedBehaviour
                     | OutOfFuel \<Rightarrow> OutOfFuel)
                | UndefinedBehaviour \<Rightarrow> UndefinedBehaviour
                | OutOfFuel \<Rightarrow> OutOfFuel)
           | UndefinedBehaviour \<Rightarrow> UndefinedBehaviour
           | OutOfFuel \<Rightarrow> OutOfFuel)
      | UndefinedBehaviour \<Rightarrow> UndefinedBehaviour
      | OutOfFuel \<Rightarrow> OutOfFuel)"
  by pat_completeness auto

text \<open>
  Every call chain is finite: the fuel never grows, it shrinks from \<open>launchPaths\<close> to
  \<open>launchFiles\<close>, between two such steps the calls go down the order \<open>launchFiles\<close>,
  \<open>launchFiles_classify\<close>, \<open>launchFiles_step\<close>, \<open>launchDesktopEntry\<close>,
  \<open>launchDesktopEntry_tail\<close>, \<open>launchPaths\<close>, and the loop consumes its list.
\<close>

termination
  by (relation "measures [
        (\<lambda>x. case x of
           Inl (Inl (n, _)) \<Rightarrow> n
         | Inl (Inr (Inl (n, _))) \<Rightarrow> n
         | Inl (Inr (Inr (n, _))) \<Rightarrow> n
         | Inr (Inl (n, _)) \<Rightarrow> n
         | Inr (Inr (Inl (n, _))) \<Rightarrow> n
         | Inr (Inr (Inr (n, _))) \<Rightarrow> n),
        (\<lambda>x. case x of
           Inl (Inl _) \<Rightarrow> 0
         | Inl (Inr (Inl _)) \<Rightarrow> 1
         | Inl (Inr (Inr _)) \<Rightarrow> 2
         | Inr (Inl _) \<Rightarrow> 3
         | Inr (Inr (Inl _)) \<Rightarrow> 4
         | Inr (Inr (Inr _)) \<Rightarrow> (5::nat)),
        (\<lambda>x. case x of
           Inr (Inr (Inl (n, e, ctx, fileInfos, _))) \<Rightarrow> length fileInfos
         | _ \<Rightarrow> 0)]")
     auto

declare launchDesktopEntry_tail.simps [simp del]
declare launchDesktopEntry.simps [simp del]
declare launchFiles_step.simps [simp del]
declare launchFiles.simps [simp del]

section \<open>A concrete environment\<close>

text \<open>
  One instance of every collaborator, used to run the dispatcher on concrete inputs.
  \<open>demo_parse_scheme\<close> follows RFC 3986 (a letter, then letters, digits, \<open>+\<close>, \<open>-\<close>,
  \<open>.\<close>, up to the first colon).
\<close>

definition is_alpha :: "char \<Rightarrow> bool" where
  "is_alpha c = (let k = (of_char c :: nat) in (65 \<le> k \<and> k \<le> 90) \<or> (97 \<le> k \<and> k \<le> 122))"

definition is_scheme_char :: "char \<Rightarrow> bool" where
  "is_scheme_char c =
     (let k = (of_char c :: nat)
      in is_alpha c \<or> (48 \<le> k \<and> k \<le> 57) \<or> c = CHR ''+'' \<or> c = CHR ''-'' \<or> c = CHR ''.'')"

fun scan_scheme :: "string \<Rightarrow> string \<Rightarrow> string option" where
  "scan_scheme acc [] = None"
| "scan_scheme acc (c # cs) =
     (if c = CHR '':'' then Some (rev acc)
      else if is_scheme_char c then scan_scheme (c # acc) cs
      else None)"

definition demo_parse_scheme :: "string \<Rightarrow> string option" where
  "demo_parse_scheme u =
     (case u of [] \<Rightarrow> None | c # _ \<Rightarrow> if is_alpha c then scan_scheme [] u else None)"

definition demo_is_absolute :: "string \<Rightarrow> bool" where
  "demo_is_absolute f = (case f of [] \<Rightarrow> False | c # _ \<Rightarrow> c = CHR ''/'')"

definition demo_dirname :: "string \<Rightarrow> string" where
  "demo_dirname f =
     (if CHR ''/'' \<notin> set f then ''.''
      else (let d = rev (drop 1 (dropWhile (\<lambda>c. c \<noteq> CHR ''/'') (rev f)))
            in if d = [] then ''/'' else d))"

definition demo_uri :: "FilePath \<Rightarrow> string" where
  "demo_uri p =
     (case p of
        NullPath \<Rightarrow> []
      | FromUri u \<Rightarrow> u
      | FromLocalPath f \<Rightarrow> ''file://'' @ f
      | FromPathStr f \<Rightarrow> (if demo_is_absolute f then ''file://'' @ f else f))"

definition demo_localPath :: "FilePath \<Rightarrow> string option" where
  "demo_localPath p =
     (case p of
        NullPath \<Rightarrow> None
      | FromUri u \<Rightarrow> (if take 7 u = ''file://'' then Some (drop 7 u) else None)
      | FromLocalPath f \<Rightarrow> Some f
      | FromPathStr f \<Rightarrow> (if demo_is_absolute f then Some f else None))"

text \<open>
  In \<open>demo_env\<close> the members keep their default bodies; \<^verbatim>\<open>text/plain\<close> and
  \<^verbatim>\<open>mailto\<close> have default applications (1 and 2); every desktop entry resolves, the
  one named \<^verbatim>\<open>broken.desktop\<close> to application 3, which is the only one whose launch
  fails; every local file passes the executable test and gets a command-line application;
  \<^verbatim>\<open>chdir\<close> fails for \<^verbatim>\<open>/locked\<close> only, with \<^verbatim>\<open>EACCES\<close>; the file-info job finds nothing;
  a hash map is walked from the key inserted last to the key inserted first.
\<close>

definition demo_env :: env where
  "demo_env = \<lparr>
     quickExec = False,
     showError_v = (\<lambda>s ctx err p info. False),
     chooseApp_v = (\<lambda>s fileInfos mime. (None, None)),
     askExecFile_v = (\<lambda>s file. DIRECT_EXEC),
     g_app_info_get_default_for_type = (\<lambda>s mime. if mime = ''text/plain'' then Some 1 else None),
     g_app_info_get_default_for_uri_scheme = (\<lambda>s scheme. if scheme = ''mailto'' then Some 2 else None),
     g_app_info_launch_uris =
       (\<lambda>s app uris ctx.
          if app = None \<or> app = Some 3 then (False, Some (GError (PRIMITIVE 0) ''launch failed''))
          else (True, None)),
     g_desktop_app_info_new_from_filename = (\<lambda>s name. Some 4),
     g_desktop_app_info_new = (\<lambda>s name. if name = ''broken.desktop'' then Some 3 else Some 4),
     g_file_test_is_executable = (\<lambda>s filename. filename \<noteq> None),
     fm_app_info_create_from_commandline = (\<lambda>s quoted flags. if quoted = None then None else Some 5),
     fm_app_info_launch = (\<lambda>s app ctx. (True, None)),
     sys_chdir = (\<lambda>s dir. if dir = ''/locked'' then Some 13 else None),
     fileInfoJob = (\<lambda>s ps. []),
     g_uri_parse_scheme = demo_parse_scheme,
     g_path_is_absolute = demo_is_absolute,
     g_shell_quote = map_option (\<lambda>f. [CHR 0x27] @ f @ [CHR 0x27]),
     g_path_get_dirname = map_option demo_dirname,
     g_strerror = (\<lambda>errno. ''Permission denied''),
     uri = demo_uri,
     localPath = demo_localPath,
     hasUriScheme = (\<lambda>p scheme. demo_parse_scheme (demo_uri p) = Some scheme),
     bucket_position = (\<lambda>keys k. length (dropWhile (\<lambda>x. x \<noteq> k) keys))\<rparr>"

definition demo_state :: state where
  "demo_state = \<lparr>cwd = ''/home/u'', trace = []\<rparr>"

text \<open>A plain file reference at a local path, none of the flags set but \<open>isNative\<close>.\<close>

definition plain_file :: "string \<Rightarrow> string \<Rightarrow> FileInfo" where
  "plain_file f mime = \<lparr>
     path = FromLocalPath f, target = [], mimeType = mime,
     isDir = False, isMountable = False, isDesktopEntry = False,
     isExecutableType = False, isShortcut = False, isNative = True\<rparr>"

text \<open>Further concrete references.\<close>

definition mailto_shortcut :: FileInfo where
  "mailto_shortcut = (plain_file ''/home/u/mail'' ''application/octet-stream'')\<lparr>
     isShortcut := True, target := ''mailto:a@b.c''\<rparr>"

definition irc_shortcut :: FileInfo where
  "irc_shortcut = (plain_file ''/home/u/chat'' ''application/octet-stream'')\<lparr>
     isShortcut := True, target := ''irc://host''\<rparr>"

definition broken_entry :: FileInfo where
  "broken_entry = (plain_file ''/home/u/x.desktop'' ''application/x-desktop'')\<lparr>
     isDesktopEntry := True, target := ''broken.desktop''\<rparr>"

section \<open>Vocabulary of the statements\<close>

text \<open>
  What \<^verbatim>\<open>launchDesktopEntry(const char*, ...)\<close> asks the desktop-entry registry for an
  identifier, and the call it makes to ask.
\<close>

definition registry_lookup :: "env \<Rightarrow> state \<Rightarrow> string \<Rightarrow> GAppInfoPtr" where
  "registry_lookup e s name =
     (if g_path_is_absolute e name then g_desktop_app_info_new_from_filename e s name
      else g_desktop_app_info_new e s name)"

definition registry_event :: "env \<Rightarrow> string \<Rightarrow> event" where
  "registry_event e name =
     (if g_path_is_absolute e name then EDesktopAppInfoNewFromFilename name
      else EDesktopAppInfoNew name)"

text \<open>The error \<^verbatim>\<open>launchFiles\<close> builds for a mountable reference without a target.\<close>

definition not_mounted_error :: GErrorPtr where
  "not_mounted_error = Some (GError G_IO_ERROR_NOT_MOUNTED ''The path is not mounted.'')"

text \<open>
  The identifier of a desktop entry: its target string when there is one, else its local
  path (which a path outside the local file system does not have).
\<close>

definition desktop_entry_identifier :: "env \<Rightarrow> FileInfo \<Rightarrow> string option" where
  "desktop_entry_identifier e fi =
     (if target fi \<noteq> [] then Some (target fi) else localPath e (path fi))"

text \<open>The action chosen for a reference: \<^verbatim>\<open>quickExec_ ? DIRECT_EXEC : askExecFile(fileInfo)\<close>.\<close>

definition chosen_action :: "env \<Rightarrow> FileInfo \<Rightarrow> state \<Rightarrow> ExecAction \<times> state" where
  "chosen_action e fi s = (if quickExec e then (DIRECT_EXEC, s) else askExecFile e fi s)"

text \<open>The creation flags of the command-line applications created in a stretch of trace.\<close>

fun created_flags :: "event list \<Rightarrow> 32 word list" where
  "created_flags [] = []"
| "created_flags (ECreateFromCommandline q fl # es) = fl # created_flags es"
| "created_flags (_ # es) = created_flags es"

text \<open>The directories handed to \<^verbatim>\<open>chdir\<close> in a stretch of trace.\<close>

fun chdir_targets :: "event list \<Rightarrow> string list" where
  "chdir_targets [] = []"
| "chdir_targets (EChdir d # es) = d # chdir_targets es"
| "chdir_targets (_ # es) = chdir_targets es"

text \<open>What the trace ends with when the way back to directory \<open>d\<close> fails.\<close>

definition restore_failed :: "string \<Rightarrow> event list" where
  "restore_failed d = [EChdir d, EWarning ''fm_launch_files(): chdir() failed'']"

text \<open>
  The state of a process that started in state \<open>s\<close>, has since left the events \<open>es\<close> in
  the trace, and stands in directory \<open>dir\<close>.
\<close>

definition state_after :: "state \<Rightarrow> string \<Rightarrow> event list \<Rightarrow> state" where
  "state_after s dir es = \<lparr>cwd = dir, trace = trace s @ es\<rparr>"

text \<open>
  The way \<^verbatim>\<open>launchExecutable\<close> uses \<^verbatim>\<open>chdir\<close>, for a run from state \<open>s\<close> to state \<open>s'\<close>
  that has left the events \<open>before @ es\<close>, the executable lying in folder \<open>dir\<close>. Either
  there is no \<^verbatim>\<open>chdir\<close>; or the folder is some \<open>d\<close> other than \<^verbatim>\<open>.\<close> and \<^verbatim>\<open>chdir\<close> is
  called for it. When that call fails there is no other. When it succeeds there is one
  more, for the directory the run started in, and the run ends there exactly when this
  second call succeeds; else it ends in \<open>d\<close>, with a warning. Each call is judged in the
  state in which it is made.
\<close>

definition directory_discipline ::
  "env \<Rightarrow> string option \<Rightarrow> state \<Rightarrow> event list \<Rightarrow> event list \<Rightarrow> state \<Rightarrow> bool" where
  "directory_discipline e dir s before es s' \<longleftrightarrow>
     chdir_targets es = [] \<and> cwd s' = cwd s \<or>
     (\<exists>d pre post. dir = Some d \<and> d \<noteq> ''.'' \<and> es = pre @ EChdir d # post \<and>
        chdir_targets pre = [] \<and>
        (sys_chdir e (state_after s (cwd s) (before @ pre)) d \<noteq> None \<and>
           chdir_targets post = [] \<and> cwd s' = cwd s \<or>
         sys_chdir e (state_after s (cwd s) (before @ pre)) d = None \<and>
           (\<exists>mid. chdir_targets mid = [] \<and>
              (sys_chdir e (state_after s d (before @ pre @ EChdir d # mid)) (cwd s) = None \<and>
                 post = mid @ [EChdir (cwd s)] \<and> cwd s' = cwd s \<or>
               sys_chdir e (state_after s d (before @ pre @ EChdir d # mid)) (cwd s) \<noteq> None \<and>
                 post = mid @ restore_failed (cwd s) \<and> cwd s' = d))))"

text \<open>More concrete inputs.\<close>

definition unmounted_volume :: FileInfo where
  "unmounted_volume = \<lparr>
     path = FromUri ''computer:///disk.drive'', target = [], mimeType = ''inode/mount-point'',
     isDir = False, isMountable = True, isDesktopEntry = False,
     isExecutableType = False, isShortcut = True, isNative = False\<rparr>"

definition mounted_volume :: FileInfo where
  "mounted_volume = unmounted_volume\<lparr>target := ''/media/disk''\<rparr>"

definition mounting_env :: env where
  "mounting_env = demo_env\<lparr>showError_v := (\<lambda>s ctx err p info. True)\<rparr>"

definition run_sh :: FileInfo where
  "run_sh = (plain_file ''/home/u/run.sh'' ''application/x-shellscript'')\<lparr>
     isExecutableType := True\<rparr>"

definition terminal_env :: env where
  "terminal_env = demo_env\<lparr>askExecFile_v := (\<lambda>s file. EXEC_IN_TERMINAL)\<rparr>"

definition menu_entry :: FileInfo where
  "menu_entry = \<lparr>
     path = FromUri ''menu://applications/Office/calc.desktop'', target = ''calc.desktop'',
     mimeType = ''application/x-desktop'',
     isDir = False, isMountable = False, isDesktopEntry = True,
     isExecutableType = False, isShortcut = False, isNative = False\<rparr>"

definition local_entry :: FileInfo where
  "local_entry = (plain_file ''/home/u/Desktop/calc.desktop'' ''application/x-desktop'')\<lparr>
     isDesktopEntry := True, isExecutableType := True\<rparr>"

definition remote_entry :: FileInfo where
  "remote_entry = menu_entry\<lparr>path := FromUri ''sftp://host/calc.desktop''\<rparr>"

definition tmp_state :: state where
  "tmp_state = \<lparr>cwd = ''/tmp'', trace = []\<rparr>"

text \<open>A process standing in a directory that it is no longer permitted to enter.\<close>

definition locked_state :: state where
  "locked_state = \<lparr>cwd = ''/locked'', trace = []\<rparr>"

section \<open>The classification as the specification states it\<close>

text \<open>
  The specification names seven kinds of reference and fixes the order in which they are
  tested: directory, mountable (pending when the target is empty, resolved otherwise),
  desktop entry, executable, shortcut, and generic for everything else. \<open>spec_bucket\<close> is
  that order, written from the specification; \<open>bucket_action\<close> is what is done with a
  reference of each kind. They are compared with the loop body of the source below.
\<close>

datatype bucket =
    Directory | MountablePending | MountableResolved | DesktopEntry | Executable
  | Shortcut | GenericMime

definition spec_bucket :: "FileInfo \<Rightarrow> bucket" where
  "spec_bucket fi =
     (if isDir fi then Directory
      else if isMountable fi then
        (if target fi = [] then MountablePending else MountableResolved)
      else if isDesktopEntry fi then DesktopEntry
      else if isExecutableType fi then Executable
      else if isShortcut fi then Shortcut
      else GenericMime)"

text \<open>A call made for its effect only: the buckets \<open>b\<close> go on unchanged.\<close>

definition keeping :: "buckets \<Rightarrow> 'a result \<Rightarrow> buckets result" where
  "keeping b r =
     (case r of
        Return _ s1 \<Rightarrow> Return b s1
      | UndefinedBehaviour \<Rightarrow> UndefinedBehaviour
      | OutOfFuel \<Rightarrow> OutOfFuel)"

fun bucket_action ::
  "nat \<Rightarrow> env \<Rightarrow> GAppLaunchContext \<Rightarrow> bucket \<Rightarrow> FileInfo \<Rightarrow> buckets \<Rightarrow> state \<Rightarrow> buckets result" where
  "bucket_action n e ctx Directory fi b s =
     Return (b\<lparr>folderInfos := folderInfos b @ [fi]\<rparr>) s"
| "bucket_action n e ctx MountablePending fi b s =
     Return
       (if showError_v e s ctx not_mounted_error (Some (path fi)) (Some fi)
        then b\<lparr>pathsToLaunch := pathsToLaunch b @ [path fi]\<rparr> else b)
       (record_event (EShowError ctx not_mounted_error (Some (path fi)) (Some fi)) s)"
| "bucket_action n e ctx MountableResolved fi b s =
     Return (b\<lparr>pathsToLaunch := pathsToLaunch b @ [FromPathStr (target fi)]\<rparr>) s"
| "bucket_action n e ctx DesktopEntry fi b s =
     keeping b (launchDesktopEntry n e fi [] ctx s)"
| "bucket_action n e ctx Executable fi b s =
     keeping b (launchExecutable e fi ctx s)"
| "bucket_action n e ctx Shortcut fi b s =
     (case handleShortcut e fi ctx s of
        Return p s1 \<Rightarrow>
          Return (if isValid p then b\<lparr>pathsToLaunch := pathsToLaunch b @ [p]\<rparr> else b) s1
      | UndefinedBehaviour \<Rightarrow> UndefinedBehaviour
      | OutOfFuel \<Rightarrow> OutOfFuel)"
| "bucket_action n e ctx GenericMime fi b s =
     Return (b\<lparr>mimeTypeToFiles :=
                emplace_back_at (mimeType fi) fi (mimeTypeToFiles b)\<rparr>) s"

text \<open>The files the grouping table holds under a MIME-type name.\<close>

definition files_of_type :: "(string \<times> FileInfo list) list \<Rightarrow> string \<Rightarrow> FileInfo list" where
  "files_of_type tbl m = (case map_of tbl m of None \<Rightarrow> [] | Some fs \<Rightarrow> fs)"

definition groups_nonempty :: "(string \<times> FileInfo list) list \<Rightarrow> bool" where
  "groups_nonempty tbl = (\<forall>m fs. (m, fs) \<in> set tbl \<longrightarrow> fs \<noteq> [])"

text \<open>Three projections of a stretch of trace: the MIME types whose default application
  was looked up, the calls of \<^verbatim>\<open>chooseApp\<close>, and the calls of the launch primitive, each
  with the application handle and the URI list it was given.\<close>

fun default_lookups :: "event list \<Rightarrow> string list" where
  "default_lookups [] = []"
| "default_lookups (EDefaultForType m # es) = m # default_lookups es"
| "default_lookups (_ # es) = default_lookups es"

fun chooser_calls :: "event list \<Rightarrow> (string \<times> FileInfo list) list" where
  "chooser_calls [] = []"
| "chooser_calls (EChooseApp fs m # es) = (m, fs) # chooser_calls es"
| "chooser_calls (_ # es) = chooser_calls es"

fun launches :: "event list \<Rightarrow> (GAppInfoPtr \<times> string list) list" where
  "launches [] = []"
| "launches (ELaunchUris app us ctx # es) = (app, us) # launches es"
| "launches (_ # es) = launches es"

text \<open>The URI list \<^verbatim>\<open>launchWithApp\<close> builds for the files of a group.\<close>

definition group_uris :: "env \<Rightarrow> FileInfo list \<Rightarrow> string list" where
  "group_uris e fs = rev (map (uri e) (paths fs))"

text \<open>
  The application a round of the second loop ends up with for a group: the default for
  the type, else what \<^verbatim>\<open>chooseApp\<close> returns.
\<close>

definition obtained_app :: "env \<Rightarrow> state \<Rightarrow> string \<Rightarrow> FileInfo list \<Rightarrow> GAppInfoPtr" where
  "obtained_app e s m fs =
     (case g_app_info_get_default_for_type e s m of
        Some a \<Rightarrow> Some a
      | None \<Rightarrow> fst (chooseApp_v e (record_event (EDefaultForType m) s) fs m))"

text \<open>
  The launch of an application over the files of a batch, as the specification describes
  it: one call of the launch primitive with the URIs of all the files and, when the call
  fails, one report to the error surface, with the error of the primitive and the first
  path of the batch. \<open>s\<close> is the state in which the launch is made.
\<close>

definition launch_events ::
  "env \<Rightarrow> GAppLaunchContext \<Rightarrow> GAppInfoPtr \<Rightarrow> FileInfo list \<Rightarrow> state \<Rightarrow> event list" where
  "launch_events e ctx app fs s =
     ELaunchUris app (group_uris e fs) ctx #
     (case g_app_info_launch_uris e s app (group_uris e fs) ctx of
        (True, err) \<Rightarrow> []
      | (False, err) \<Rightarrow> [EShowError ctx err (Some (path (hd fs))) None])"

text \<open>
  The round of the second loop for one MIME type, as the specification describes it: look
  up the default application of the type; if there is none, ask \<^verbatim>\<open>chooseApp\<close>; if an
  application was obtained, launch it over the files of the type. \<open>rounds_events\<close> is one
  round after the other, each in the state the one before has left.
\<close>

definition round_events ::
  "env \<Rightarrow> GAppLaunchContext \<Rightarrow> string \<Rightarrow> FileInfo list \<Rightarrow> state \<Rightarrow> event list" where
  "round_events e ctx m fs s =
     (let asked = EDefaultForType m #
            (case g_app_info_get_default_for_type e s m of
               None \<Rightarrow> [EChooseApp fs m]
             | Some a \<Rightarrow> [])
      in asked @
         (case obtained_app e s m fs of
            None \<Rightarrow> []
          | Some a \<Rightarrow> launch_events e ctx (Some a) fs (state_after s (cwd s) asked)))"

fun rounds_events ::
  "env \<Rightarrow> GAppLaunchContext \<Rightarrow> (string \<times> FileInfo list) list \<Rightarrow> state \<Rightarrow> event list" where
  "rounds_events e ctx [] s = []"
| "rounds_events e ctx ((m, fs) # rest) s =
     round_events e ctx m fs s @
     rounds_events e ctx rest (state_after s (cwd s) (round_events e ctx m fs s))"

text \<open>
  The folder batch, as the specification describes \<^verbatim>\<open>openFolder\<close>: ask the resolver for
  an application for \<^verbatim>\<open>inode/directory\<close> and launch it over all the folders; when there
  is none, report the error of the resolver.
\<close>

definition folder_events ::
  "env \<Rightarrow> GAppLaunchContext \<Rightarrow> FileInfo list \<Rightarrow> state \<Rightarrow> event list" where
  "folder_events e ctx folders s =
     (if folders = [] then []
      else EChooseApp folders ''inode/directory'' #
        (case chooseApp_v e s folders ''inode/directory'' of
           (None, err) \<Rightarrow> [EShowError ctx err None None]
         | (Some a, err) \<Rightarrow>
             launch_events e ctx (Some a) folders
               (state_after s (cwd s) [EChooseApp folders ''inode/directory''])))"

text \<open>
  What \<^verbatim>\<open>launchFiles\<close> leaves in the trace between the classification loop and the
  re-dispatch of the queued paths: the folder batch, then the rounds of the MIME types in
  the order of the walk.
\<close>

definition batch_events ::
  "env \<Rightarrow> GAppLaunchContext \<Rightarrow> buckets \<Rightarrow> state \<Rightarrow> event list" where
  "batch_events e ctx b s =
     folder_events e ctx (folderInfos b) s @
     rounds_events e ctx (walk_order e (mimeTypeToFiles b))
       (state_after s (cwd s) (folder_events e ctx (folderInfos b) s))"

text \<open>The end of \<^verbatim>\<open>launchFiles\<close>: whatever the last call returns, the value is true.\<close>

definition returning_true :: "'a result \<Rightarrow> bool result" where
  "returning_true r =
     (case r of
        Return _ s \<Rightarrow> Return True s
      | UndefinedBehaviour \<Rightarrow> UndefinedBehaviour
      | OutOfFuel \<Rightarrow> OutOfFuel)"

subsection \<open>Failures and their reports\<close>

text \<open>
  The state after an event: the event joins the trace, and a \<^verbatim>\<open>chdir\<close> that succeeds
  moves the process. \<open>replay\<close> is the state after a list of events.
\<close>

definition apply_event :: "env \<Rightarrow> event \<Rightarrow> state \<Rightarrow> state" where
  "apply_event e ev s =
     (case ev of
        EChdir d \<Rightarrow> snd (chdir e d s)
      | _ \<Rightarrow> record_event ev s)"

fun replay :: "env \<Rightarrow> state \<Rightarrow> event list \<Rightarrow> state" where
  "replay e s [] = s"
| "replay e s (ev # es) = replay e (apply_event e ev s) es"

text \<open>
  Four kinds of call can fail: the two launch primitives, the two lookups in the
  desktop-entry registry, and \<^verbatim>\<open>chdir\<close>. The call recorded by \<open>ev\<close>, made in state \<open>s\<close>,
  is answered by the next event \<open>nxt\<close> when it has succeeded, or \<open>nxt\<close> is the report of
  its error to the error surface (for \<^verbatim>\<open>chdir\<close>, that report or the warning logged on
  the way back). \<open>failures_answered\<close> says this of every event of a list, each call taken
  in the state in which it was made.
\<close>

fun is_report :: "GErrorPtr \<Rightarrow> event option \<Rightarrow> bool" where
  "is_report err (Some (EShowError ctx err' p info)) = (err' = err)"
| "is_report err _ = False"

definition answered :: "env \<Rightarrow> state \<Rightarrow> event \<Rightarrow> event option \<Rightarrow> bool" where
  "answered e s ev nxt =
     (case ev of
        ELaunchUris app us ctx \<Rightarrow>
          (case g_app_info_launch_uris e s app us ctx of
             (True, err) \<Rightarrow> True
           | (False, err) \<Rightarrow> is_report err nxt)
      | EAppInfoLaunch a ctx \<Rightarrow>
          (case fm_app_info_launch e s a ctx of
             (True, err) \<Rightarrow> True
           | (False, err) \<Rightarrow> is_report err nxt)
      | EDesktopAppInfoNewFromFilename name \<Rightarrow>
          (case g_desktop_app_info_new_from_filename e s name of
             Some a \<Rightarrow> True
           | None \<Rightarrow>
               is_report (Some (GError G_IO_ERROR_FAILED (invalid_desktop_entry_msg name))) nxt)
      | EDesktopAppInfoNew name \<Rightarrow>
          (case g_desktop_app_info_new e s name of
             Some a \<Rightarrow> True
           | None \<Rightarrow>
               is_report (Some (GError G_IO_ERROR_FAILED (invalid_desktop_entry_msg name))) nxt)
      | EChdir d \<Rightarrow>
          (case sys_chdir e s d of
             None \<Rightarrow> True
           | Some errno \<Rightarrow>
               is_report (Some (GError (FROM_ERRNO errno) (chdir_failed_msg e d errno))) nxt
               \<or> nxt = Some (EWarning ''fm_launch_files(): chdir() failed''))
      | _ \<Rightarrow> True)"

fun failures_answered :: "env \<Rightarrow> state \<Rightarrow> event list \<Rightarrow> bool" where
  "failures_answered e s [] = True"
| "failures_answered e s (ev # es) =
     (answered e s ev (case es of [] \<Rightarrow> None | nxt # _ \<Rightarrow> Some nxt) \<and>
      failures_answered e (apply_event e ev s) es)"

text \<open>
  A run from state \<open>s\<close> to state \<open>s'\<close> is accounted for when \<open>s'\<close> is \<open>s\<close> after the events the
  run has added to the trace, and every failure among them is answered.
\<close>

definition accounted :: "env \<Rightarrow> state \<Rightarrow> state \<Rightarrow> bool" where
  "accounted e s s' \<longleftrightarrow>
     s' = replay e s (drop (length (trace s)) (trace s')) \<and>
     failures_answered e s (drop (length (trace s)) (trace s'))"

definition accounted_result :: "env \<Rightarrow> state \<Rightarrow> 'a result \<Rightarrow> bool" where
  "accounted_result e s r = (case r of Return _ s' \<Rightarrow> accounted e s s' | _ \<Rightarrow> True)"

text \<open>
  A shortcut whose target is its own path, and an environment whose file-info job
  describes every path as that shortcut.
\<close>

definition self_link :: FileInfo where
  "self_link = (plain_file ''/home/u/link'' ''application/octet-stream'')\<lparr>
     isShortcut := True, target := ''/home/u/link''\<rparr>"

definition loop_env :: env where
  "loop_env = demo_env\<lparr>fileInfoJob := (\<lambda>s ps. map (\<lambda>p. self_link) ps)\<rparr>"

definition docs_dir :: FileInfo where
  "docs_dir = (plain_file ''/home/u/Docs'' ''inode/directory'')\<lparr>isDir := True\<rparr>"

definition a_txt :: FileInfo where
  "a_txt = plain_file ''/home/u/a.txt'' ''text/plain''"

definition b_txt :: FileInfo where
  "b_txt = plain_file ''/home/u/b.txt'' ''text/plain''"

definition c_png :: FileInfo where
  "c_png = plain_file ''/home/u/c.png'' ''image/png''"

text \<open>
  The scenario of the specification (a folder, a script, two text files), the buckets its
  classification ends with and the state it ends in; and three generic files of two types
  with their buckets.
\<close>

definition scenario :: "FileInfo list" where
  "scenario = [docs_dir, run_sh, a_txt, b_txt]"

definition scenario_buckets :: buckets where
  "scenario_buckets = \<lparr>
     mimeTypeToFiles = [(''text/plain'', [a_txt, b_txt])],
     folderInfos = [docs_dir],
     pathsToLaunch = []\<rparr>"

definition scenario_state :: state where
  "scenario_state = \<lparr>
     cwd = ''/home/u'',
     trace =
       [EFileTest (Some ''/home/u/run.sh''), EAskExecFile run_sh,
        ECreateFromCommandline (Some ([CHR 0x27] @ ''/home/u/run.sh'' @ [CHR 0x27]))
          G_APP_INFO_CREATE_NONE,
        EChdir ''/home/u'', EAppInfoLaunch 5 None, EChdir ''/home/u'']\<rparr>"

definition mixed_files :: "FileInfo list" where
  "mixed_files = [a_txt, c_png, b_txt]"

definition mixed_buckets :: buckets where
  "mixed_buckets = \<lparr>
     mimeTypeToFiles = [(''text/plain'', [a_txt, b_txt]), (''image/png'', [c_png])],
     folderInfos = [],
     pathsToLaunch = []\<rparr>"

text \<open>An environment in which every launch fails.\<close>

definition failing_env :: env where
  "failing_env = demo_env\<lparr>
     g_app_info_launch_uris :=
       (\<lambda>s app uris ctx. (False, Some (GError (PRIMITIVE 0) ''launch failed'')))\<rparr>"

text \<open>The state a launch of two text files ends in when the launch fails.\<close>

definition failing_state :: state where
  "failing_state = \<lparr>
     cwd = ''/home/u'',
     trace =
       [EDefaultForType ''text/plain'',
        ELaunchUris (Some 1) [''file:///home/u/b.txt'', ''file:///home/u/a.txt''] None,
        EShowError None (Some (GError (PRIMITIVE 0) ''launch failed''))
          (Some (FromLocalPath ''/home/u/a.txt'')) None]\<rparr>"

section \<open>Basic facts\<close>

lemma foldl_prepend: "foldl (\<lambda>us p. f p # us) acc ps = rev (map f ps) @ acc"
  by (induction ps arbitrary: acc) simp_all

lemma walk_order_Nil [simp]: "walk_order e [] = []"
  by (simp add: walk_order_def)

lemma set_walk_order [simp]: "set (walk_order e tbl) = set tbl"
  by (simp add: walk_order_def)

lemma keys_walk_order [simp]: "set (map fst (walk_order e tbl)) = set (map fst tbl)"
  by simp

lemma distinct_keys_walk_order [simp]:
  "distinct (map fst (walk_order e tbl)) = distinct (map fst tbl)"
  by (simp add: distinct_map walk_order_def)

lemma launchWithApp_Nil:
  "launchWithApp e app [] ctx s =
     (if fst (g_app_info_launch_uris e s app [] ctx)
      then Return True (record_event (ELaunchUris app [] ctx) s)
      else UndefinedBehaviour)"
  by (simp add: launchWithApp_def split: prod.splits)

lemma launchWithApp_Cons:
  "launchWithApp e app (p # ps) ctx s =
     (let uris = rev (map (uri e) (p # ps));
          r = g_app_info_launch_uris e s app uris ctx;
          s1 = record_event (ELaunchUris app uris ctx) s
      in Return (fst r)
           (if fst r then s1 else record_event (EShowError ctx (snd r) (Some p) None) s1))"
  by (simp add: launchWithApp_def foldl_prepend showError_def Let_def split: prod.splits)

lemma trace_record_event [simp]: "trace (record_event ev s) = trace s @ [ev]"
  by (simp add: record_event_def)

lemma cwd_record_event [simp]: "cwd (record_event ev s) = cwd s"
  by (simp add: record_event_def)

lemma launchDesktopEntryName_eq:
  "launchDesktopEntryName e name ps ctx s =
     (case registry_lookup e s name of
        Some a \<Rightarrow> launchWithApp e (Some a) ps ctx (record_event (registry_event e name) s)
      | None \<Rightarrow>
          Return False
            (record_event
               (EShowError ctx (Some (GError G_IO_ERROR_FAILED (invalid_desktop_entry_msg name)))
                  None None)
               (record_event (registry_event e name) s)))"
  by (auto simp add: launchDesktopEntryName_def registry_lookup_def registry_event_def
        showError_def split: option.splits)

lemma demo_env_sel:
  "quickExec demo_env = False"
  "uri demo_env = demo_uri"
  "localPath demo_env = demo_localPath"
  "g_uri_parse_scheme demo_env = demo_parse_scheme"
  "g_path_is_absolute demo_env = demo_is_absolute"
  by (simp_all add: demo_env_def)

text \<open>The concrete environment keeps the default bodies of the overridable members.\<close>

lemma demo_env_base_policy: "base_policy demo_env = demo_env"
  by (simp add: base_policy_def demo_env_def)

section \<open>Shortcuts\<close>

text \<open>
  Claim C4. \<^verbatim>\<open>handleShortcut\<close> always returns. The path it returns is valid exactly when
  the target has no scheme (the target taken as a local path) or one of the schemes
  \<^verbatim>\<open>file\<close>, \<^verbatim>\<open>trash\<close>, \<^verbatim>\<open>network\<close>, \<^verbatim>\<open>computer\<close> (the path made from the URI), and
  in these cases nothing is launched. For any other scheme the null path is returned, and
  the default handler of the scheme is looked up and invoked at once with the URI form of
  the path made from the target; the classification loop then queues nothing for the
  shortcut.
\<close>

theorem handleShortcut_queues_or_launches:
  "\<exists>p s'. handleShortcut e fi ctx s = Return p s' \<and>
     (isValid p \<longleftrightarrow>
        (g_uri_parse_scheme e (target fi) = None \<or>
         g_uri_parse_scheme e (target fi) \<in> Some ` {''file'', ''trash'', ''network'', ''computer''})) \<and>
     (g_uri_parse_scheme e (target fi) = None \<longrightarrow> p = FromLocalPath (target fi) \<and> s' = s) \<and>
     (\<forall>x. g_uri_parse_scheme e (target fi) = Some x \<and>
          x \<in> {''file'', ''trash'', ''network'', ''computer''} \<longrightarrow>
          p = FromUri (target fi) \<and> s' = s) \<and>
     (\<forall>x. g_uri_parse_scheme e (target fi) = Some x \<and>
          x \<notin> {''file'', ''trash'', ''network'', ''computer''} \<longrightarrow>
          p = NullPath \<and>
          (\<exists>es. trace s' =
                  trace s @
                  EDefaultForUriScheme x #
                  ELaunchUris (g_app_info_get_default_for_uri_scheme e s x)
                    [uri e (FromUri (target fi))] ctx # es \<and>
                (es = [] \<or> (\<exists>err. es = [EShowError ctx err (Some (FromUri (target fi))) None])))) \<and>
     (\<not> isDir fi \<and> \<not> isMountable fi \<and> \<not> isDesktopEntry fi \<and> \<not> isExecutableType fi \<and>
      isShortcut fi \<longrightarrow>
        launchFiles_step n e ctx fi b s =
          Return (if isValid p then b\<lparr>pathsToLaunch := pathsToLaunch b @ [p]\<rparr> else b) s')"
proof (cases "g_uri_parse_scheme e (target fi)")
  case None
  then show ?thesis
    by (simp add: handleShortcut_def isValid_def launchFiles_step.simps)
next
  case (Some x)
  show ?thesis
  proof (cases "x \<in> {''file'', ''trash'', ''network'', ''computer''}")
    case True
    with Some show ?thesis
      by (auto simp add: handleShortcut_def isValid_def launchFiles_step.simps)
  next
    case False
    with Some show ?thesis
      by (auto simp add: handleShortcut_def isValid_def launchFiles_step.simps
            launchWithApp_Cons Let_def)
  qed
qed

theorem handleShortcut_queues_or_launches_witness:
  "g_uri_parse_scheme demo_env (target mailto_shortcut) = Some ''mailto'' \<and>
   (\<exists>s'. handleShortcut demo_env mailto_shortcut None demo_state = Return NullPath s' \<and>
         launchFiles_step 0 demo_env None mailto_shortcut no_buckets demo_state
           = Return no_buckets s')"
proof -
  have sch: "g_uri_parse_scheme demo_env (target mailto_shortcut) = Some ''mailto''"
    by (simp add: demo_env_def mailto_shortcut_def plain_file_def demo_parse_scheme_def
          is_alpha_def is_scheme_char_def)
  have flags: "\<not> isDir mailto_shortcut \<and> \<not> isMountable mailto_shortcut \<and>
      \<not> isDesktopEntry mailto_shortcut \<and> \<not> isExecutableType mailto_shortcut \<and>
      isShortcut mailto_shortcut"
    by (simp add: mailto_shortcut_def plain_file_def)
  have run: "handleShortcut demo_env mailto_shortcut None demo_state =
      Return NullPath
        \<lparr>cwd = ''/home/u'',
         trace = [EDefaultForUriScheme ''mailto'', ELaunchUris (Some 2) [''mailto:a@b.c''] None]\<rparr>"
    using sch
    by (simp add: handleShortcut_def launchWithApp_Cons Let_def)
       (simp add: demo_env_def demo_state_def record_event_def mailto_shortcut_def demo_uri_def)
  show ?thesis
    using handleShortcut_queues_or_launches
            [of demo_env mailto_shortcut None demo_state 0 no_buckets] run sch flags
    by (simp add: isValid_def)
qed

text \<open>
  Claim C10. For a shortcut whose target has a scheme other than the four local ones and
  for which no default handler is registered, \<^verbatim>\<open>handleShortcut\<close> reports nothing before
  the launch: it calls the launch primitive with the null handle, and the only report
  that can follow is the one \<^verbatim>\<open>launchWithApp\<close> makes with whatever error the primitive
  returned.
\<close>

theorem handleShortcut_null_handler:
  assumes "g_uri_parse_scheme e (target fi) = Some x"
    and "x \<notin> {''file'', ''trash'', ''network'', ''computer''}"
    and "g_app_info_get_default_for_uri_scheme e s x = None"
  shows "handleShortcut e fi ctx s =
           Return NullPath
             (s\<lparr>trace :=
                  trace s @
                  [EDefaultForUriScheme x, ELaunchUris None [uri e (FromUri (target fi))] ctx] @
                  (let r = g_app_info_launch_uris e (record_event (EDefaultForUriScheme x) s) None
                             [uri e (FromUri (target fi))] ctx
                   in if fst r then []
                      else [EShowError ctx (snd r) (Some (FromUri (target fi))) None])\<rparr>)"
  using assms
  by (simp add: handleShortcut_def launchWithApp_Cons Let_def record_event_def)

theorem handleShortcut_null_handler_witness:
  "g_uri_parse_scheme demo_env (target irc_shortcut) = Some ''irc'' \<and>
   g_app_info_get_default_for_uri_scheme demo_env demo_state ''irc'' = None \<and>
   handleShortcut demo_env irc_shortcut None demo_state =
     Return NullPath
       \<lparr>cwd = ''/home/u'',
        trace =
          [EDefaultForUriScheme ''irc'', ELaunchUris None [''irc://host''] None,
           EShowError None (Some (GError (PRIMITIVE 0) ''launch failed''))
             (Some (FromUri ''irc://host'')) None]\<rparr>"
proof -
  have sch: "g_uri_parse_scheme demo_env (target irc_shortcut) = Some ''irc''"
    by (simp add: demo_env_def irc_shortcut_def plain_file_def demo_parse_scheme_def
          is_alpha_def is_scheme_char_def)
  have other: "''irc'' \<notin> {''file'', ''trash'', ''network'', ''computer''}"
    by simp
  have none: "g_app_info_get_default_for_uri_scheme demo_env demo_state ''irc'' = None"
    by (simp add: demo_env_def)
  have vals: "uri demo_env (FromUri ''irc://host'') = ''irc://host''"
       "\<And>st us. g_app_info_launch_uris demo_env st None us None
          = (False, Some (GError (PRIMITIVE 0) ''launch failed''))"
       "target irc_shortcut = ''irc://host''"
    by (simp_all add: demo_env_def irc_shortcut_def plain_file_def demo_uri_def)
  show ?thesis
    using handleShortcut_null_handler [OF sch other none, of None] sch none
    by (simp add: vals demo_state_def Let_def)
qed

section \<open>The unchecked first path\<close>

text \<open>
  Claim C9. \<^verbatim>\<open>launchWithApp\<close> ends in the undefined read of \<^verbatim>\<open>paths[0]\<close> exactly when
  the path list is empty and the launch primitive fails; with a non-empty list a failed
  launch is reported against the first path and the call returns false. \<^verbatim>\<open>launchFiles\<close>
  hands the desktop-entry path an empty list, so a desktop entry that the registry
  resolves and whose launch fails drives the loop step, and with it \<^verbatim>\<open>launchFiles\<close>,
  into that read; with an empty list the registry launch ends there exactly when the
  registry resolves the identifier and the launch fails.
\<close>

theorem launchWithApp_unchecked_first_path:
  "(launchWithApp e app ps ctx s = UndefinedBehaviour \<longleftrightarrow>
      ps = [] \<and> \<not> fst (g_app_info_launch_uris e s app [] ctx)) \<and>
   (ps \<noteq> [] \<and> \<not> fst (g_app_info_launch_uris e s app (rev (map (uri e) ps)) ctx) \<longrightarrow>
      launchWithApp e app ps ctx s =
        Return False
          (s\<lparr>trace :=
               trace s @
               [ELaunchUris app (rev (map (uri e) ps)) ctx,
                EShowError ctx (snd (g_app_info_launch_uris e s app (rev (map (uri e) ps)) ctx))
                  (Some (hd ps)) None]\<rparr>)) \<and>
   (\<not> isDir fi \<and> \<not> isMountable fi \<and> isDesktopEntry fi \<and> \<not> isExecutableType fi \<and>
    (isNative fi \<or> hasUriScheme e (path fi) ''menu'') \<and>
    (if target fi \<noteq> [] then Some (target fi) else localPath e (path fi)) = Some name \<and>
    registry_lookup e s name = Some a \<and>
    \<not> fst (g_app_info_launch_uris e (record_event (registry_event e name) s) (Some a) [] ctx) \<longrightarrow>
      launchFiles_step n e ctx fi b s = UndefinedBehaviour \<and>
      launchFiles n e (fi # rest) ctx s = UndefinedBehaviour) \<and>
   (launchDesktopEntryName e name [] ctx s = UndefinedBehaviour \<longleftrightarrow>
      (\<exists>a. registry_lookup e s name = Some a \<and>
           \<not> fst (g_app_info_launch_uris e (record_event (registry_event e name) s)
                    (Some a) [] ctx)))"
proof (intro conjI impI)
  show "launchDesktopEntryName e name [] ctx s = UndefinedBehaviour \<longleftrightarrow>
      (\<exists>a. registry_lookup e s name = Some a \<and>
           \<not> fst (g_app_info_launch_uris e (record_event (registry_event e name) s)
                    (Some a) [] ctx))"
    by (cases "registry_lookup e s name")
       (simp_all add: launchDesktopEntryName_eq launchWithApp_Nil)
next
  show "launchWithApp e app ps ctx s = UndefinedBehaviour \<longleftrightarrow>
          ps = [] \<and> \<not> fst (g_app_info_launch_uris e s app [] ctx)"
    by (cases ps) (simp_all add: launchWithApp_Nil launchWithApp_Cons Let_def)
next
  assume "ps \<noteq> [] \<and> \<not> fst (g_app_info_launch_uris e s app (rev (map (uri e) ps)) ctx)"
  then show "launchWithApp e app ps ctx s =
        Return False
          (s\<lparr>trace :=
               trace s @
               [ELaunchUris app (rev (map (uri e) ps)) ctx,
                EShowError ctx (snd (g_app_info_launch_uris e s app (rev (map (uri e) ps)) ctx))
                  (Some (hd ps)) None]\<rparr>)"
    by (cases ps) (simp_all add: launchWithApp_Cons Let_def record_event_def)
next
  assume h: "\<not> isDir fi \<and> \<not> isMountable fi \<and> isDesktopEntry fi \<and> \<not> isExecutableType fi \<and>
    (isNative fi \<or> hasUriScheme e (path fi) ''menu'') \<and>
    (if target fi \<noteq> [] then Some (target fi) else localPath e (path fi)) = Some name \<and>
    registry_lookup e s name = Some a \<and>
    \<not> fst (g_app_info_launch_uris e (record_event (registry_event e name) s) (Some a) [] ctx)"
  then have "launchDesktopEntry_tail n e (Some name) [] [] ctx s = UndefinedBehaviour"
    by (simp add: launchDesktopEntry_tail.simps launchDesktopEntryName_eq launchWithApp_Nil)
  moreover have "launchDesktopEntry n e fi [] ctx s
                   = launchDesktopEntry_tail n e (Some name) [] [] ctx s"
    using h by (simp add: launchDesktopEntry.simps Let_def)
  ultimately have d: "launchDesktopEntry n e fi [] ctx s = UndefinedBehaviour"
    by simp
  with h show st: "launchFiles_step n e ctx fi b s = UndefinedBehaviour" for b
    by (simp add: launchFiles_step.simps)
  then show "launchFiles n e (fi # rest) ctx s = UndefinedBehaviour"
    by (simp add: launchFiles.simps)
qed

theorem launchWithApp_unchecked_first_path_witness:
  "launchWithApp demo_env (Some 3) [] None demo_state = UndefinedBehaviour \<and>
   launchFiles_step 0 demo_env None broken_entry no_buckets demo_state = UndefinedBehaviour \<and>
   launchFiles 0 demo_env [broken_entry] None demo_state = UndefinedBehaviour \<and>
   launchWithApp demo_env (Some 3) [FromLocalPath ''/a'', FromLocalPath ''/b''] None demo_state
     = Return False
         \<lparr>cwd = ''/home/u'',
          trace =
           [ELaunchUris (Some 3) [''file:///b'', ''file:///a''] None,
            EShowError None (Some (GError (PRIMITIVE 0) ''launch failed''))
              (Some (FromLocalPath ''/a'')) None]\<rparr>"
proof -
  have fails: "g_app_info_launch_uris demo_env st (Some 3) us None
                 = (False, Some (GError (PRIMITIVE 0) ''launch failed''))" for st us
    by (simp add: demo_env_def)
  have entry: "\<not> isDir broken_entry \<and> \<not> isMountable broken_entry \<and> isDesktopEntry broken_entry \<and>
      \<not> isExecutableType broken_entry \<and>
      (isNative broken_entry \<or> hasUriScheme demo_env (path broken_entry) ''menu'') \<and>
      (if target broken_entry \<noteq> [] then Some (target broken_entry)
       else localPath demo_env (path broken_entry)) = Some ''broken.desktop'' \<and>
      registry_lookup demo_env demo_state ''broken.desktop'' = Some 3 \<and>
      \<not> fst (g_app_info_launch_uris demo_env
               (record_event (registry_event demo_env ''broken.desktop'') demo_state)
               (Some 3) [] None)"
    by (simp add: fails)
       (simp add: broken_entry_def plain_file_def registry_lookup_def demo_env_def
          demo_is_absolute_def)
  have uris: "uri demo_env = demo_uri"
    by (simp add: demo_env_def)
  note empty = launchWithApp_unchecked_first_path
         [of demo_env "Some 3" "[]" None demo_state broken_entry "''broken.desktop''" 3 0
             no_buckets "[]"]
  note two = launchWithApp_unchecked_first_path
         [of demo_env "Some 3" "[FromLocalPath ''/a'', FromLocalPath ''/b'']" None demo_state
             broken_entry "''broken.desktop''" 3 0 no_buckets "[]"]
  have a: "launchWithApp demo_env (Some 3) [] None demo_state = UndefinedBehaviour"
    using empty [THEN conjunct1] by (simp add: fails)
  have b: "launchFiles_step 0 demo_env None broken_entry no_buckets demo_state = UndefinedBehaviour \<and>
      launchFiles 0 demo_env [broken_entry] None demo_state = UndefinedBehaviour"
    by (rule empty [THEN conjunct2, THEN conjunct2, THEN conjunct1, THEN mp, OF entry])
  have c: "launchWithApp demo_env (Some 3) [FromLocalPath ''/a'', FromLocalPath ''/b''] None
             demo_state
           = Return False
         \<lparr>cwd = ''/home/u'',
          trace =
           [ELaunchUris (Some 3) [''file:///b'', ''file:///a''] None,
            EShowError None (Some (GError (PRIMITIVE 0) ''launch failed''))
              (Some (FromLocalPath ''/a'')) None]\<rparr>"
    using two [THEN conjunct2, THEN conjunct1] by (simp add: fails uris demo_uri_def demo_state_def)
  from a b c show ?thesis by simp
qed

section \<open>Mountable references\<close>

lemma launchFiles_Nil: "launchFiles n e [] ctx s = Return True s"
  by (simp add: launchFiles.simps no_buckets_def)

text \<open>
  Claim C3. For a reference that is not a directory and is mountable: with an empty target
  the loop step reports the not-mounted error for the reference's path and the reference
  itself; when the error surface answers unhandled the buckets stay as they were, and
  \<^verbatim>\<open>launchFiles\<close> goes on exactly as it would on the remaining references from the state
  after the report, so the reference reaches no launch; when it answers handled the
  reference's own path is queued, and it is that path which the file-info job is asked
  for. With a non-empty target the path made from the target is queued, with no report.
\<close>

theorem mountable_classification:
  "\<not> isDir fi \<and> isMountable fi \<longrightarrow>
     (target fi = [] \<longrightarrow>
        launchFiles_step n e ctx fi b s =
          Return (if showError_v e s ctx not_mounted_error (Some (path fi)) (Some fi)
                  then b\<lparr>pathsToLaunch := pathsToLaunch b @ [path fi]\<rparr> else b)
                 (record_event (EShowError ctx not_mounted_error (Some (path fi)) (Some fi)) s) \<and>
        (\<not> showError_v e s ctx not_mounted_error (Some (path fi)) (Some fi) \<longrightarrow>
           launchFiles n e (fi # rest) ctx s =
             launchFiles n e rest ctx
               (record_event (EShowError ctx not_mounted_error (Some (path fi)) (Some fi)) s)) \<and>
        (showError_v e s ctx not_mounted_error (Some (path fi)) (Some fi) \<longrightarrow>
           launchFiles (Suc n) e [fi] ctx s =
             (let s1 = record_event (EShowError ctx not_mounted_error (Some (path fi)) (Some fi)) s
              in case launchFiles n e (fileInfoJob e s1 [path fi]) ctx
                        (record_event (EFileInfoJob [path fi]) s1) of
                   Return _ s2 \<Rightarrow> Return True s2
                 | UndefinedBehaviour \<Rightarrow> UndefinedBehaviour
                 | OutOfFuel \<Rightarrow> OutOfFuel))) \<and>
     (target fi \<noteq> [] \<longrightarrow>
        launchFiles_step n e ctx fi b s =
          Return (b\<lparr>pathsToLaunch := pathsToLaunch b @ [FromPathStr (target fi)]\<rparr>) s \<and>
        launchFiles (Suc n) e [fi] ctx s =
          (case launchFiles n e (fileInfoJob e s [FromPathStr (target fi)]) ctx
                  (record_event (EFileInfoJob [FromPathStr (target fi)]) s) of
             Return _ s2 \<Rightarrow> Return True s2
           | UndefinedBehaviour \<Rightarrow> UndefinedBehaviour
           | OutOfFuel \<Rightarrow> OutOfFuel))"
proof (intro impI conjI)
  assume m: "\<not> isDir fi \<and> isMountable fi" and t: "target fi = []"
  show st: "launchFiles_step n e ctx fi b s =
          Return (if showError_v e s ctx not_mounted_error (Some (path fi)) (Some fi)
                  then b\<lparr>pathsToLaunch := pathsToLaunch b @ [path fi]\<rparr> else b)
                 (record_event (EShowError ctx not_mounted_error (Some (path fi)) (Some fi)) s)"
    for n b
    using m t by (simp add: launchFiles_step.simps showError_def not_mounted_error_def)
  {
    assume "\<not> showError_v e s ctx not_mounted_error (Some (path fi)) (Some fi)"
    then show "launchFiles n e (fi # rest) ctx s =
             launchFiles n e rest ctx
               (record_event (EShowError ctx not_mounted_error (Some (path fi)) (Some fi)) s)"
      by (simp add: launchFiles.simps st)
  }
  {
    assume "showError_v e s ctx not_mounted_error (Some (path fi)) (Some fi)"
    then show "launchFiles (Suc n) e [fi] ctx s =
             (let s1 = record_event (EShowError ctx not_mounted_error (Some (path fi)) (Some fi)) s
              in case launchFiles n e (fileInfoJob e s1 [path fi]) ctx
                        (record_event (EFileInfoJob [path fi]) s1) of
                   Return _ s2 \<Rightarrow> Return True s2
                 | UndefinedBehaviour \<Rightarrow> UndefinedBehaviour
                 | OutOfFuel \<Rightarrow> OutOfFuel)"
      by (simp add: launchFiles.simps [of "Suc n"] st no_buckets_def Let_def
            split: result.splits)
  }
next
  assume m: "\<not> isDir fi \<and> isMountable fi" and t: "target fi \<noteq> []"
  show st: "launchFiles_step n e ctx fi b s =
          Return (b\<lparr>pathsToLaunch := pathsToLaunch b @ [FromPathStr (target fi)]\<rparr>) s"
    for n b
    using m t by (simp add: launchFiles_step.simps)
  show "launchFiles (Suc n) e [fi] ctx s =
          (case launchFiles n e (fileInfoJob e s [FromPathStr (target fi)]) ctx
                  (record_event (EFileInfoJob [FromPathStr (target fi)]) s) of
             Return _ s2 \<Rightarrow> Return True s2
           | UndefinedBehaviour \<Rightarrow> UndefinedBehaviour
           | OutOfFuel \<Rightarrow> OutOfFuel)"
    by (simp add: launchFiles.simps [of "Suc n"] st no_buckets_def Let_def
          split: result.splits)
qed

theorem mountable_classification_witness:
  "(\<not> isDir unmounted_volume \<and> isMountable unmounted_volume \<and> target unmounted_volume = []) \<and>
   launchFiles 0 demo_env [unmounted_volume] None demo_state =
     Return True
       \<lparr>cwd = ''/home/u'',
        trace = [EShowError None not_mounted_error (Some (FromUri ''computer:///disk.drive''))
                   (Some unmounted_volume)]\<rparr> \<and>
   launchFiles_step 0 mounting_env None unmounted_volume no_buckets demo_state =
     Return (no_buckets\<lparr>pathsToLaunch := [FromUri ''computer:///disk.drive'']\<rparr>)
       \<lparr>cwd = ''/home/u'',
        trace = [EShowError None not_mounted_error (Some (FromUri ''computer:///disk.drive''))
                   (Some unmounted_volume)]\<rparr> \<and>
   launchFiles_step 0 demo_env None mounted_volume no_buckets demo_state =
     Return (no_buckets\<lparr>pathsToLaunch := [FromPathStr ''/media/disk'']\<rparr>) demo_state"
proof -
  have m: "\<not> isDir unmounted_volume \<and> isMountable unmounted_volume"
    and t: "target unmounted_volume = []"
    and p: "path unmounted_volume = FromUri ''computer:///disk.drive''"
    by (simp_all add: unmounted_volume_def)
  have m': "\<not> isDir mounted_volume \<and> isMountable mounted_volume"
    and t': "target mounted_volume \<noteq> []" "target mounted_volume = ''/media/disk''"
    by (simp_all add: mounted_volume_def unmounted_volume_def)
  have declined: "\<not> showError_v demo_env st c er q i" for st c er q i
    by (simp add: demo_env_def)
  have handled: "showError_v mounting_env st c er q i" for st c er q i
    by (simp add: mounting_env_def)
  note unhandled_case =
    mountable_classification [of unmounted_volume 0 demo_env None no_buckets demo_state "[]",
      THEN mp, OF m, THEN conjunct1, THEN mp, OF t]
  note handled_case =
    mountable_classification [of unmounted_volume 0 mounting_env None no_buckets demo_state "[]",
      THEN mp, OF m, THEN conjunct1, THEN mp, OF t]
  note resolved_case =
    mountable_classification [of mounted_volume 0 demo_env None no_buckets demo_state "[]",
      THEN mp, OF m', THEN conjunct2, THEN mp, OF t'(1)]
  have a: "launchFiles 0 demo_env [unmounted_volume] None demo_state =
     Return True
       \<lparr>cwd = ''/home/u'',
        trace = [EShowError None not_mounted_error (Some (FromUri ''computer:///disk.drive''))
                   (Some unmounted_volume)]\<rparr>"
    using unhandled_case [THEN conjunct2, THEN conjunct1, THEN mp, OF declined]
    by (simp add: launchFiles_Nil p record_event_def demo_state_def)
  have b: "launchFiles_step 0 mounting_env None unmounted_volume no_buckets demo_state =
     Return (no_buckets\<lparr>pathsToLaunch := [FromUri ''computer:///disk.drive'']\<rparr>)
       \<lparr>cwd = ''/home/u'',
        trace = [EShowError None not_mounted_error (Some (FromUri ''computer:///disk.drive''))
                   (Some unmounted_volume)]\<rparr>"
    using handled_case [THEN conjunct1]
    by (simp add: handled p record_event_def demo_state_def no_buckets_def)
  have c: "launchFiles_step 0 demo_env None mounted_volume no_buckets demo_state =
     Return (no_buckets\<lparr>pathsToLaunch := [FromPathStr ''/media/disk'']\<rparr>) demo_state"
    using resolved_case [THEN conjunct1]
    by (simp add: t'(2) no_buckets_def)
  from m t a b c show ?thesis by simp
qed

section \<open>Desktop entries\<close>

lemma chosen_action_cases:
  "chosen_action e fi s = (if quickExec e then (DIRECT_EXEC, s)
     else (askExecFile_v e s fi, record_event (EAskExecFile fi) s))"
  by (simp add: chosen_action_def askExecFile_def)

text \<open>
  Claim C6. A desktop entry that is executable, not a shortcut, and for which the chosen
  action is direct or terminal execution, and one that is not executable but native or
  under the \<^verbatim>\<open>menu\<close> scheme, go to the registry launch with the identifier of the
  entry: the target string when it is not empty, else the local path (an entry with
  neither is not launched). A non-executable entry that is neither native nor under
  \<^verbatim>\<open>menu\<close> returns false and leaves the state untouched. The registry launch looks the
  identifier up in the registry first.
\<close>

theorem launchDesktopEntry_identifier:
  "(isExecutableType fi \<and> \<not> isShortcut fi \<and>
    fst (chosen_action e fi s) \<in> {DIRECT_EXEC, EXEC_IN_TERMINAL} \<longrightarrow>
      launchDesktopEntry n e fi ps ctx s =
        (case desktop_entry_identifier e fi of
           Some name \<Rightarrow> launchDesktopEntryName e name ps ctx (snd (chosen_action e fi s))
         | None \<Rightarrow> Return False (snd (chosen_action e fi s)))) \<and>
   (\<not> isExecutableType fi \<and> (isNative fi \<or> hasUriScheme e (path fi) ''menu'') \<longrightarrow>
      launchDesktopEntry n e fi ps ctx s =
        (case desktop_entry_identifier e fi of
           Some name \<Rightarrow> launchDesktopEntryName e name ps ctx s
         | None \<Rightarrow> Return False s)) \<and>
   (\<not> isExecutableType fi \<and> \<not> isNative fi \<and> \<not> hasUriScheme e (path fi) ''menu'' \<longrightarrow>
      launchDesktopEntry n e fi ps ctx s = Return False s) \<and>
   launchDesktopEntryName e name ps ctx s =
     (case registry_lookup e s name of
        Some a \<Rightarrow> launchWithApp e (Some a) ps ctx (record_event (registry_event e name) s)
      | None \<Rightarrow>
          Return False
            (record_event
               (EShowError ctx (Some (GError G_IO_ERROR_FAILED (invalid_desktop_entry_msg name)))
                  None None)
               (record_event (registry_event e name) s)))"
proof (intro conjI impI)
  assume "isExecutableType fi \<and> \<not> isShortcut fi \<and>
    fst (chosen_action e fi s) \<in> {DIRECT_EXEC, EXEC_IN_TERMINAL}"
  then show "launchDesktopEntry n e fi ps ctx s =
        (case desktop_entry_identifier e fi of
           Some name \<Rightarrow> launchDesktopEntryName e name ps ctx (snd (chosen_action e fi s))
         | None \<Rightarrow> Return False (snd (chosen_action e fi s)))"
    by (cases "chosen_action e fi s")
       (auto simp add: launchDesktopEntry.simps launchDesktopEntry_tail.simps Let_def
          desktop_entry_identifier_def chosen_action_def split: option.splits)
next
  assume "\<not> isExecutableType fi \<and> (isNative fi \<or> hasUriScheme e (path fi) ''menu'')"
  then show "launchDesktopEntry n e fi ps ctx s =
        (case desktop_entry_identifier e fi of
           Some name \<Rightarrow> launchDesktopEntryName e name ps ctx s
         | None \<Rightarrow> Return False s)"
    by (auto simp add: launchDesktopEntry.simps launchDesktopEntry_tail.simps Let_def
          desktop_entry_identifier_def split: option.splits)
next
  assume "\<not> isExecutableType fi \<and> \<not> isNative fi \<and> \<not> hasUriScheme e (path fi) ''menu''"
  then show "launchDesktopEntry n e fi ps ctx s = Return False s"
    by (simp add: launchDesktopEntry.simps launchDesktopEntry_tail.simps Let_def)
next
  show "launchDesktopEntryName e name ps ctx s =
     (case registry_lookup e s name of
        Some a \<Rightarrow> launchWithApp e (Some a) ps ctx (record_event (registry_event e name) s)
      | None \<Rightarrow>
          Return False
            (record_event
               (EShowError ctx (Some (GError G_IO_ERROR_FAILED (invalid_desktop_entry_msg name)))
                  None None)
               (record_event (registry_event e name) s)))"
    by (rule launchDesktopEntryName_eq)
qed

theorem launchDesktopEntry_identifier_witness:
  "(isExecutableType local_entry \<and> \<not> isShortcut local_entry \<and>
    fst (chosen_action demo_env local_entry demo_state) = DIRECT_EXEC) \<and>
   launchDesktopEntry 0 demo_env local_entry [] None demo_state =
     launchDesktopEntryName demo_env ''/home/u/Desktop/calc.desktop'' [] None
       (record_event (EAskExecFile local_entry) demo_state) \<and>
   (\<not> isExecutableType menu_entry \<and> \<not> isNative menu_entry \<and>
    hasUriScheme demo_env (path menu_entry) ''menu'') \<and>
   launchDesktopEntry 0 demo_env menu_entry [] None demo_state =
     launchDesktopEntryName demo_env ''calc.desktop'' [] None demo_state \<and>
   (\<not> isExecutableType remote_entry \<and> \<not> isNative remote_entry \<and>
    \<not> hasUriScheme demo_env (path remote_entry) ''menu'') \<and>
   launchDesktopEntry 0 demo_env remote_entry [] None demo_state = Return False demo_state"
proof -
  have act: "chosen_action demo_env fi st = (DIRECT_EXEC, record_event (EAskExecFile fi) st)"
    for fi st
    by (simp add: chosen_action_cases demo_env_def)
  have l: "isExecutableType local_entry \<and> \<not> isShortcut local_entry \<and>
      fst (chosen_action demo_env local_entry demo_state) \<in> {DIRECT_EXEC, EXEC_IN_TERMINAL}"
    by (simp add: act) (simp add: local_entry_def plain_file_def)
  have lid: "desktop_entry_identifier demo_env local_entry
               = Some ''/home/u/Desktop/calc.desktop''"
    by (simp add: desktop_entry_identifier_def local_entry_def plain_file_def demo_env_sel
          demo_localPath_def)
  have m: "\<not> isExecutableType menu_entry \<and>
      (isNative menu_entry \<or> hasUriScheme demo_env (path menu_entry) ''menu'')"
    and m': "\<not> isNative menu_entry" "hasUriScheme demo_env (path menu_entry) ''menu''"
    by (simp_all add: menu_entry_def demo_env_def demo_uri_def demo_parse_scheme_def
          is_alpha_def is_scheme_char_def)
  have mid: "desktop_entry_identifier demo_env menu_entry = Some ''calc.desktop''"
    by (simp add: desktop_entry_identifier_def menu_entry_def)
  have r: "\<not> isExecutableType remote_entry \<and> \<not> isNative remote_entry \<and>
      \<not> hasUriScheme demo_env (path remote_entry) ''menu''"
    by (simp add: remote_entry_def menu_entry_def demo_env_def demo_uri_def
          demo_parse_scheme_def is_alpha_def is_scheme_char_def)
  have a: "launchDesktopEntry 0 demo_env local_entry [] None demo_state =
     launchDesktopEntryName demo_env ''/home/u/Desktop/calc.desktop'' [] None
       (record_event (EAskExecFile local_entry) demo_state)"
    using launchDesktopEntry_identifier
            [of local_entry demo_env demo_state 0 "[]" None, THEN conjunct1, THEN mp, OF l]
    by (simp add: lid act)
  have b: "launchDesktopEntry 0 demo_env menu_entry [] None demo_state =
     launchDesktopEntryName demo_env ''calc.desktop'' [] None demo_state"
    using launchDesktopEntry_identifier
            [of menu_entry demo_env demo_state 0 "[]" None,
             THEN conjunct2, THEN conjunct1, THEN mp, OF m]
    by (simp add: mid)
  have c: "launchDesktopEntry 0 demo_env remote_entry [] None demo_state
             = Return False demo_state"
    by (rule launchDesktopEntry_identifier
            [of remote_entry demo_env demo_state 0 "[]" None,
             THEN conjunct2, THEN conjunct2, THEN conjunct1, THEN mp, OF r])
  from l a m m' b r c show ?thesis
    by (simp add: act)
qed

section \<open>Executables\<close>

lemma created_flags_append [simp]:
  "created_flags (xs @ ys) = created_flags xs @ created_flags ys"
  by (induction xs rule: created_flags.induct) simp_all

lemma chdir_targets_append [simp]:
  "chdir_targets (xs @ ys) = chdir_targets xs @ chdir_targets ys"
  by (induction xs rule: chdir_targets.induct) simp_all

lemma chdir_eq:
  "chdir e d s =
     (case sys_chdir e s d of
        None \<Rightarrow> (None, s\<lparr>cwd := d, trace := trace s @ [EChdir d]\<rparr>)
      | Some errno \<Rightarrow> (Some errno, s\<lparr>trace := trace s @ [EChdir d]\<rparr>))"
  by (simp add: chdir_def record_event_def split: option.splits)

lemma launchExecutable_run_effect:
  "\<exists>s' es. launchExecutable_run e a fn ctx s = (True, s') \<and> trace s' = trace s @ es \<and>
     created_flags es = [] \<and>
     (chdir_targets es = [] \<and> cwd s' = cwd s \<or>
      (\<exists>d. g_path_get_dirname e fn = Some d \<and> d \<noteq> ''.'' \<and>
           (chdir_targets es = [d] \<and> cwd s' = cwd s \<or>
            chdir_targets es = [d, cwd s] \<and>
              (cwd s' = cwd s \<or>
               cwd s' = d \<and> suffix (restore_failed (cwd s)) es)))) \<and>
     ((\<forall>st. sys_chdir e st (cwd s) = None) \<longrightarrow> cwd s' = cwd s)"
  by (auto simp add: launchExecutable_run_def chdir_eq showError_def record_event_def Let_def
        restore_failed_def suffix_def
        split: option.splits prod.splits)

lemma launchWithDefaultApp_effect:
  "\<exists>r s' es. launchWithDefaultApp e fi ctx s = Return r s' \<and> trace s' = trace s @ es \<and>
     cwd s' = cwd s \<and> created_flags es = [] \<and> chdir_targets es = []"
  by (auto simp add: launchWithDefaultApp_def launchWithApp_Cons paths_def showError_def
        record_event_def Let_def split: option.splits)

lemma launchExecutable_exec_effect:
  "\<exists>r s' es. launchExecutable_exec e fn flags ctx s = (r, s') \<and> trace s' = trace s @ es \<and>
     created_flags es = [flags] \<and>
     (chdir_targets es = [] \<and> cwd s' = cwd s \<or>
      (\<exists>d. g_path_get_dirname e fn = Some d \<and> d \<noteq> ''.'' \<and>
           (chdir_targets es = [d] \<and> cwd s' = cwd s \<or>
            chdir_targets es = [d, cwd s] \<and>
              (cwd s' = cwd s \<or>
               cwd s' = d \<and> suffix (restore_failed (cwd s)) es)))) \<and>
     ((\<forall>st. sys_chdir e st (cwd s) = None) \<longrightarrow> cwd s' = cwd s)"
proof (cases "fm_app_info_create_from_commandline e s (g_shell_quote e fn) flags")
  case None
  then show ?thesis
    by (auto simp add: launchExecutable_exec_def record_event_def)
next
  case (Some a)
  let ?s1 = "record_event (ECreateFromCommandline (g_shell_quote e fn) flags) s"
  obtain s' es where
    run: "launchExecutable_run e a fn ctx ?s1 = (True, s')" and
    tr: "trace s' = trace ?s1 @ es" and
    fl: "created_flags es = []" and
    dirs: "chdir_targets es = [] \<and> cwd s' = cwd ?s1 \<or>
      (\<exists>d. g_path_get_dirname e fn = Some d \<and> d \<noteq> ''.'' \<and>
           (chdir_targets es = [d] \<and> cwd s' = cwd ?s1 \<or>
            chdir_targets es = [d, cwd ?s1] \<and>
              (cwd s' = cwd ?s1 \<or>
               cwd s' = d \<and> suffix (restore_failed (cwd ?s1)) es)))" and
    restored: "(\<forall>st. sys_chdir e st (cwd ?s1) = None) \<longrightarrow> cwd s' = cwd ?s1"
    using launchExecutable_run_effect [of e a fn ctx ?s1] by blast
  have ex: "launchExecutable_exec e fn flags ctx s = (True, s')"
    using Some run by (simp add: launchExecutable_exec_def)
  have tr': "trace s' = trace s @ ECreateFromCommandline (g_shell_quote e fn) flags # es"
    using tr by simp
  show ?thesis
    apply (rule exI [of _ True], rule exI [of _ s'])
    apply (rule exI [of _ "ECreateFromCommandline (g_shell_quote e fn) flags # es"])
    using ex tr' fl dirs restored
    apply (simp add: suffix_ConsI)
    apply (metis suffix_ConsI)
    done
qed

lemma launchExecutable_effect:
  fixes e fi ctx s
  defines "fn \<equiv> localPath e (path fi)"
  defines "s0 \<equiv> record_event (EFileTest (localPath e (path fi))) s"
  shows
  "\<exists>r s' es. launchExecutable e fi ctx s = Return r s' \<and>
     trace s' = trace s @ EFileTest fn # es \<and>
     (if \<not> g_file_test_is_executable e s fn then es = [] \<and> \<not> r
      else created_flags es =
             (case fst (chosen_action e fi s0) of
                EXEC_IN_TERMINAL \<Rightarrow>
                  [G_APP_INFO_CREATE_NONE OR G_APP_INFO_CREATE_NEEDS_TERMINAL]
              | DIRECT_EXEC \<Rightarrow> [G_APP_INFO_CREATE_NONE]
              | OPEN_WITH_DEFAULT_APP \<Rightarrow> []
              | CANCEL \<Rightarrow> [])) \<and>
     (chdir_targets es = [] \<and> cwd s' = cwd s \<or>
      (\<exists>d. g_path_get_dirname e fn = Some d \<and> d \<noteq> ''.'' \<and>
           (chdir_targets es = [d] \<and> cwd s' = cwd s \<or>
            chdir_targets es = [d, cwd s] \<and>
              (cwd s' = cwd s \<or> cwd s' = d \<and> suffix (restore_failed (cwd s)) es)))) \<and>
     ((\<forall>st. sys_chdir e st (cwd s) = None) \<longrightarrow> cwd s' = cwd s)"
proof (cases "g_file_test_is_executable e s fn")
  case False
  then show ?thesis
    by (auto simp add: launchExecutable_def fn_def record_event_def)
next
  case True
  obtain act s1 where ca: "chosen_action e fi s0 = (act, s1)"
    by (cases "chosen_action e fi s0")
  have s1: "cwd s1 = cwd s" "\<exists>pre. trace s1 = trace s @ EFileTest fn # pre \<and>
       created_flags pre = [] \<and> chdir_targets pre = []"
    using ca by (auto simp add: chosen_action_cases s0_def fn_def split: if_splits)
  then obtain pre where pre: "trace s1 = trace s @ EFileTest fn # pre"
      "created_flags pre = []" "chdir_targets pre = []"
    by blast
  have unfold: "launchExecutable e fi ctx s =
     (case act of
        EXEC_IN_TERMINAL \<Rightarrow>
          (case launchExecutable_exec e fn
                  (G_APP_INFO_CREATE_NONE OR G_APP_INFO_CREATE_NEEDS_TERMINAL) ctx s1 of
             (r, s2) \<Rightarrow> Return r s2)
      | DIRECT_EXEC \<Rightarrow>
          (case launchExecutable_exec e fn G_APP_INFO_CREATE_NONE ctx s1 of
             (r, s2) \<Rightarrow> Return r s2)
      | OPEN_WITH_DEFAULT_APP \<Rightarrow> launchWithDefaultApp e fi ctx s1
      | CANCEL \<Rightarrow> Return False s1)"
    using True ca
    by (simp add: launchExecutable_def fn_def s0_def chosen_action_def Let_def
          split: ExecAction.splits)
  have exec: "\<exists>r s' es. launchExecutable_exec e fn flags ctx s1 = (r, s') \<and>
     trace s' = trace s @ EFileTest fn # es \<and>
     created_flags es = [flags] \<and>
     (chdir_targets es = [] \<and> cwd s' = cwd s \<or>
      (\<exists>d. g_path_get_dirname e fn = Some d \<and> d \<noteq> ''.'' \<and>
           (chdir_targets es = [d] \<and> cwd s' = cwd s \<or>
            chdir_targets es = [d, cwd s] \<and>
              (cwd s' = cwd s \<or> cwd s' = d \<and> suffix (restore_failed (cwd s)) es)))) \<and>
     ((\<forall>st. sys_chdir e st (cwd s) = None) \<longrightarrow> cwd s' = cwd s)" for flags
  proof -
    obtain r s' es where
      x: "launchExecutable_exec e fn flags ctx s1 = (r, s')" "trace s' = trace s1 @ es"
         "created_flags es = [flags]"
         "chdir_targets es = [] \<and> cwd s' = cwd s1 \<or>
          (\<exists>d. g_path_get_dirname e fn = Some d \<and> d \<noteq> ''.'' \<and>
           (chdir_targets es = [d] \<and> cwd s' = cwd s1 \<or>
            chdir_targets es = [d, cwd s1] \<and>
              (cwd s' = cwd s1 \<or> cwd s' = d \<and> suffix (restore_failed (cwd s1)) es)))"
         "(\<forall>st. sys_chdir e st (cwd s1) = None) \<longrightarrow> cwd s' = cwd s1"
      using launchExecutable_exec_effect [of e fn flags ctx s1] by blast
    have suff: "suffix xs es \<Longrightarrow> suffix xs (pre @ es)" for xs
      by (simp add: suffix_appendI)
    show ?thesis
      apply (rule exI [of _ r], rule exI [of _ s'], rule exI [of _ "pre @ es"])
      using x pre s1(1) suff
      apply simp
      apply (metis suffix_appendI)
      done
  qed
  show ?thesis
  proof (cases act)
    case DIRECT_EXEC
    with unfold ca exec [of G_APP_INFO_CREATE_NONE] show ?thesis
      by (auto simp add: True)
  next
    case EXEC_IN_TERMINAL
    with unfold ca exec [of "G_APP_INFO_CREATE_NONE OR G_APP_INFO_CREATE_NEEDS_TERMINAL"]
    show ?thesis
      by (auto simp add: True)
  next
    case OPEN_WITH_DEFAULT_APP
    obtain r s' es where
      x: "launchWithDefaultApp e fi ctx s1 = Return r s'" "trace s' = trace s1 @ es"
         "cwd s' = cwd s1" "created_flags es = []" "chdir_targets es = []"
      using launchWithDefaultApp_effect [of e fi ctx s1] by blast
    show ?thesis
      apply (rule exI [of _ r], rule exI [of _ s'], rule exI [of _ "pre @ es"])
      using x pre s1(1) unfold ca OPEN_WITH_DEFAULT_APP True
      apply simp
      done
  next
    case CANCEL
    show ?thesis
      apply (rule exI [of _ False], rule exI [of _ s1], rule exI [of _ pre])
      using pre s1(1) unfold ca CANCEL True
      apply simp
      done
  qed
qed

text \<open>The same walk through \<^verbatim>\<open>launchExecutable\<close>, for the calls of \<^verbatim>\<open>chdir\<close>.\<close>

lemma state_norm:
  "(s::state)\<lparr>trace := t\<rparr> = \<lparr>cwd = cwd s, trace = t\<rparr>"
  "(s::state)\<lparr>cwd := d\<rparr> = \<lparr>cwd = d, trace = trace s\<rparr>"
  by (cases s; simp)+

lemma state_after_sel [simp]:
  "cwd (state_after s d es) = d" "trace (state_after s d es) = trace s @ es"
  by (simp_all add: state_after_def)

lemma state_after_self [simp]: "state_after s (cwd s) [] = s"
  by (simp add: state_after_def)

lemma state_after_here: "s\<lparr>trace := trace s @ es\<rparr> = state_after s (cwd s) es"
  by (simp add: state_after_def)

lemma state_after_there: "s\<lparr>cwd := d, trace := trace s @ es\<rparr> = state_after s d es"
  by (simp add: state_after_def)

lemma state_after_after [simp]:
  "state_after (state_after s d xs) d' es = state_after s d' (xs @ es)"
  by (simp add: state_after_def)

lemma run_discipline:
  "\<exists>s' es. launchExecutable_run e a fn ctx s = (True, s') \<and> trace s' = trace s @ es \<and>
     directory_discipline e (g_path_get_dirname e fn) s [] es s'"
proof (cases "\<exists>d. g_path_get_dirname e fn = Some d \<and> d \<noteq> ''.''")
  case False
  then show ?thesis
    by (auto simp add: launchExecutable_run_def showError_def record_event_def Let_def
          directory_discipline_def split: option.splits prod.splits)
next
  case True
  then obtain d where d: "g_path_get_dirname e fn = Some d" "d \<noteq> ''.''"
    by blast
  show ?thesis
  proof (cases "sys_chdir e s d")
    case (Some errno)
    define told where "told = [EShowError ctx
        (Some (GError (FROM_ERRNO errno) (chdir_failed_msg e d errno))) None None]"
    obtain ok err where l: "fm_app_info_launch e (state_after s (cwd s) (EChdir d # told)) a ctx = (ok, err)"
      by (cases "fm_app_info_launch e (state_after s (cwd s) (EChdir d # told)) a ctx")
    define post where "post = told @ EAppInfoLaunch a ctx #
        (if ok then [] else [EShowError ctx err None None])"
    have run: "launchExecutable_run e a fn ctx s = (True, state_after s (cwd s) (EChdir d # post))"
      using d Some l
      by (simp add: launchExecutable_run_def chdir_eq showError_def record_event_def Let_def
            state_after_def post_def told_def state_norm)
    have tg: "chdir_targets post = []"
      by (simp add: post_def told_def)
    show ?thesis
      unfolding directory_discipline_def run
      apply (rule exI [of _ "state_after s (cwd s) (EChdir d # post)"])
      apply (rule exI [of _ "EChdir d # post"])
      apply (intro conjI refl)
       apply simp
      apply (rule disjI2)
      apply (rule exI [of _ d], rule exI [of _ "[]"], rule exI [of _ post])
      using d Some tg apply simp
      done
  next
    case None
    obtain ok err where l: "fm_app_info_launch e (state_after s d [EChdir d]) a ctx = (ok, err)"
      by (cases "fm_app_info_launch e (state_after s d [EChdir d]) a ctx")
    define mid where "mid = EAppInfoLaunch a ctx #
        (if ok then [] else [EShowError ctx err None None])"
    define fin where "fin = (case sys_chdir e (state_after s d (EChdir d # mid)) (cwd s) of
        None \<Rightarrow> [EChdir (cwd s)] | Some _ \<Rightarrow> restore_failed (cwd s))"
    define c' where "c' = (case sys_chdir e (state_after s d (EChdir d # mid)) (cwd s) of
        None \<Rightarrow> cwd s | Some _ \<Rightarrow> d)"
    have run: "launchExecutable_run e a fn ctx s = (True, state_after s c' (EChdir d # mid @ fin))"
      using d None l
      by (simp add: launchExecutable_run_def chdir_eq showError_def record_event_def Let_def
            state_after_def mid_def fin_def c'_def restore_failed_def state_norm
            split: option.splits)
    have tg: "chdir_targets mid = []"
      by (simp add: mid_def)
    show ?thesis
      unfolding directory_discipline_def run
      apply (rule exI [of _ "state_after s c' (EChdir d # mid @ fin)"])
      apply (rule exI [of _ "EChdir d # mid @ fin"])
      apply (intro conjI refl)
       apply simp
      apply (rule disjI2)
      apply (rule exI [of _ d], rule exI [of _ "[]"], rule exI [of _ "mid @ fin"])
      using d None tg apply (simp add: )
      apply (rule exI [of _ mid])
      apply (simp add: fin_def c'_def split: option.splits)
      done
  qed
qed

lemma directory_discipline_shift:
  assumes "directory_discipline e dir s1 [] es s'"
    and "s1 = state_after s (cwd s) (before @ xs)" and "chdir_targets xs = []"
  shows "directory_discipline e dir s before (xs @ es) s'"
  using assms
  unfolding directory_discipline_def
  apply (erule_tac disjE)
   apply simp
  apply (erule exE)+
  subgoal for d pre post
    apply (rule disjI2)
    apply (rule exI [of _ d], rule exI [of _ "xs @ pre"], rule exI [of _ post])
    apply simp
    done
  done

lemma exec_discipline:
  "\<exists>r s' es. launchExecutable_exec e fn flags ctx s = (r, s') \<and> trace s' = trace s @ es \<and>
     directory_discipline e (g_path_get_dirname e fn) s [] es s'"
proof (cases "fm_app_info_create_from_commandline e s (g_shell_quote e fn) flags")
  case None
  then show ?thesis
    by (auto simp add: launchExecutable_exec_def record_event_def directory_discipline_def)
next
  case (Some a)
  let ?ev = "ECreateFromCommandline (g_shell_quote e fn) flags"
  obtain s' es where
    run: "launchExecutable_run e a fn ctx (record_event ?ev s) = (True, s')" and
    tr: "trace s' = trace (record_event ?ev s) @ es" and
    dd: "directory_discipline e (g_path_get_dirname e fn) (record_event ?ev s) [] es s'"
    using run_discipline [of e a fn ctx "record_event ?ev s"] by blast
  have "directory_discipline e (g_path_get_dirname e fn) s [] ([?ev] @ es) s'"
    using dd by (rule directory_discipline_shift) (simp_all add: record_event_def state_after_def state_norm)
  then show ?thesis
    using Some run tr by (auto simp add: launchExecutable_exec_def)
qed

lemma launchWithDefaultApp_discipline:
  "\<exists>r s' es. launchWithDefaultApp e fi ctx s = Return r s' \<and> trace s' = trace s @ es \<and>
     directory_discipline e dir s [] es s'"
  using launchWithDefaultApp_effect [of e fi ctx s]
  by (auto simp add: directory_discipline_def)

lemma launchExecutable_discipline:
  "\<exists>r s' es. launchExecutable e fi ctx s = Return r s' \<and>
     trace s' = trace s @ EFileTest (localPath e (path fi)) # es \<and>
     directory_discipline e (g_path_get_dirname e (localPath e (path fi))) s
       [EFileTest (localPath e (path fi))] es s'"
proof -
  let ?fn = "localPath e (path fi)"
  let ?dir = "g_path_get_dirname e ?fn"
  let ?s0 = "record_event (EFileTest ?fn) s"
  show ?thesis
  proof (cases "g_file_test_is_executable e s ?fn")
    case False
    then show ?thesis
      by (auto simp add: launchExecutable_def record_event_def directory_discipline_def)
  next
    case True
    obtain act s1 where ca: "chosen_action e fi ?s0 = (act, s1)"
      by (cases "chosen_action e fi ?s0")
    define asked where "asked = (if quickExec e then [] else [EAskExecFile fi])"
    have s1: "s1 = state_after s (cwd s) ([EFileTest ?fn] @ asked)" and ask: "chdir_targets asked = []"
      using ca by (auto simp add: chosen_action_cases asked_def record_event_def state_after_def
          state_norm split: if_splits)
    have unfold: "launchExecutable e fi ctx s =
       (case act of
          EXEC_IN_TERMINAL \<Rightarrow>
            (case launchExecutable_exec e ?fn
                    (G_APP_INFO_CREATE_NONE OR G_APP_INFO_CREATE_NEEDS_TERMINAL) ctx s1 of
               (r, s2) \<Rightarrow> Return r s2)
        | DIRECT_EXEC \<Rightarrow>
            (case launchExecutable_exec e ?fn G_APP_INFO_CREATE_NONE ctx s1 of
               (r, s2) \<Rightarrow> Return r s2)
        | OPEN_WITH_DEFAULT_APP \<Rightarrow> launchWithDefaultApp e fi ctx s1
        | CANCEL \<Rightarrow> Return False s1)"
      using True ca
      by (simp add: launchExecutable_def chosen_action_def Let_def split: ExecAction.splits)
    have lift: "\<exists>s' es. r = Return x s' \<and> trace s' = trace s @ EFileTest ?fn # es \<and>
        directory_discipline e ?dir s [EFileTest ?fn] es s'"
      if "r = Return x s'" "trace s' = trace s1 @ es" "directory_discipline e ?dir s1 [] es s'"
      for r :: "bool result" and x s' es
    proof -
      have "directory_discipline e ?dir s [EFileTest ?fn] (asked @ es) s'"
        using that(3) s1 ask by (rule directory_discipline_shift)
      then show ?thesis
        using that(1,2) s1 by auto
    qed
    show ?thesis
    proof (cases act)
      case DIRECT_EXEC
      obtain r s' es where x: "launchExecutable_exec e ?fn G_APP_INFO_CREATE_NONE ctx s1 = (r, s')"
          "trace s' = trace s1 @ es" "directory_discipline e ?dir s1 [] es s'"
        using exec_discipline [of e ?fn G_APP_INFO_CREATE_NONE ctx s1] by blast
      have "launchExecutable e fi ctx s = Return r s'"
        using unfold DIRECT_EXEC x(1) by simp
      from lift [OF this x(2,3)] show ?thesis by blast
    next
      case EXEC_IN_TERMINAL
      obtain r s' es where x: "launchExecutable_exec e ?fn
            (G_APP_INFO_CREATE_NONE OR G_APP_INFO_CREATE_NEEDS_TERMINAL) ctx s1 = (r, s')"
          "trace s' = trace s1 @ es" "directory_discipline e ?dir s1 [] es s'"
        using exec_discipline [of e ?fn _ ctx s1] by blast
      have "launchExecutable e fi ctx s = Return r s'"
        using unfold EXEC_IN_TERMINAL x(1) by simp
      from lift [OF this x(2,3)] show ?thesis by blast
    next
      case OPEN_WITH_DEFAULT_APP
      obtain r s' es where x: "launchWithDefaultApp e fi ctx s1 = Return r s'"
          "trace s' = trace s1 @ es" "directory_discipline e ?dir s1 [] es s'"
        using launchWithDefaultApp_discipline [of e fi ctx s1 ?dir] by blast
      have "launchExecutable e fi ctx s = Return r s'"
        using unfold OPEN_WITH_DEFAULT_APP x(1) by simp
      from lift [OF this x(2,3)] show ?thesis by blast
    next
      case CANCEL
      have a: "launchExecutable e fi ctx s = Return False s1"
        using unfold CANCEL by simp
      have b: "directory_discipline e ?dir s1 [] [] s1"
        by (simp add: directory_discipline_def)
      from lift [OF a _ b] show ?thesis by auto
    qed
  qed
qed

lemmas run_defs =
  launchExecutable_def launchExecutable_exec_def launchExecutable_run_def chdir_def
  showError_def askExecFile_def record_event_def Let_def

lemma run_sh_at_tmp:
  "launchExecutable demo_env run_sh None tmp_state =
     Return True
       \<lparr>cwd = ''/tmp'',
        trace =
          [EFileTest (Some ''/home/u/run.sh''), EAskExecFile run_sh,
           ECreateFromCommandline (Some ([CHR 0x27] @ ''/home/u/run.sh'' @ [CHR 0x27]))
             G_APP_INFO_CREATE_NONE,
           EChdir ''/home/u'', EAppInfoLaunch 5 None, EChdir ''/tmp'']\<rparr>"
  by (simp add: run_defs demo_env_def run_sh_def plain_file_def tmp_state_def
        demo_localPath_def demo_dirname_def)

text \<open>
  Claim C8. \<^verbatim>\<open>launchExecutable\<close> always returns, and the first thing it does is the
  executable test of the local path; when the test fails nothing else happens and the
  result is false. When it passes, a command-line application is created exactly once for
  direct and terminal execution and not at all otherwise, and the creation flags carry the
  needs-terminal bit exactly when the chosen action is execution in a terminal.
\<close>

theorem launchExecutable_terminal_flag:
  "\<exists>r s' es. launchExecutable e fi ctx s = Return r s' \<and>
     trace s' = trace s @ EFileTest (localPath e (path fi)) # es \<and>
     (\<not> g_file_test_is_executable e s (localPath e (path fi)) \<longrightarrow> es = [] \<and> \<not> r) \<and>
     (g_file_test_is_executable e s (localPath e (path fi)) \<longrightarrow>
        length (created_flags es) =
          (if fst (chosen_action e fi (record_event (EFileTest (localPath e (path fi))) s))
                \<in> {DIRECT_EXEC, EXEC_IN_TERMINAL}
           then 1 else 0)) \<and>
     (\<forall>fl \<in> set (created_flags es).
        (fl AND G_APP_INFO_CREATE_NEEDS_TERMINAL \<noteq> 0) \<longleftrightarrow>
        fst (chosen_action e fi (record_event (EFileTest (localPath e (path fi))) s))
          = EXEC_IN_TERMINAL)"
proof -
  obtain r s' es where
    x: "launchExecutable e fi ctx s = Return r s'"
       "trace s' = trace s @ EFileTest (localPath e (path fi)) # es"
       "if \<not> g_file_test_is_executable e s (localPath e (path fi)) then es = [] \<and> \<not> r
        else created_flags es =
             (case fst (chosen_action e fi (record_event (EFileTest (localPath e (path fi))) s)) of
                EXEC_IN_TERMINAL \<Rightarrow>
                  [G_APP_INFO_CREATE_NONE OR G_APP_INFO_CREATE_NEEDS_TERMINAL]
              | DIRECT_EXEC \<Rightarrow> [G_APP_INFO_CREATE_NONE]
              | OPEN_WITH_DEFAULT_APP \<Rightarrow> []
              | CANCEL \<Rightarrow> [])"
    using launchExecutable_effect [of e fi ctx s] by blast
  show ?thesis
    apply (rule exI [of _ r], rule exI [of _ s'], rule exI [of _ es])
    using x
    apply (cases "g_file_test_is_executable e s (localPath e (path fi))")
     apply (cases "fst (chosen_action e fi (record_event (EFileTest (localPath e (path fi))) s))")
        apply (simp_all add: G_APP_INFO_CREATE_NONE_def G_APP_INFO_CREATE_NEEDS_TERMINAL_def)
    done
qed

theorem launchExecutable_terminal_flag_witness:
  "g_file_test_is_executable terminal_env demo_state (localPath terminal_env (path run_sh)) \<and>
   fst (chosen_action terminal_env run_sh
          (record_event (EFileTest (localPath terminal_env (path run_sh))) demo_state))
     = EXEC_IN_TERMINAL \<and>
   (\<exists>r s' es. launchExecutable terminal_env run_sh None demo_state = Return r s' \<and>
      trace s' = EFileTest (Some ''/home/u/run.sh'') # es \<and>
      length (created_flags es) = 1 \<and>
      list_all (\<lambda>fl. fl AND G_APP_INFO_CREATE_NEEDS_TERMINAL \<noteq> 0) (created_flags es))"
proof -
  have lp: "localPath terminal_env (path run_sh) = Some ''/home/u/run.sh''"
    by (simp add: terminal_env_def demo_env_def run_sh_def plain_file_def demo_localPath_def)
  have test: "g_file_test_is_executable terminal_env demo_state (Some ''/home/u/run.sh'')"
    by (simp add: terminal_env_def demo_env_def)
  have act: "fst (chosen_action terminal_env run_sh st) = EXEC_IN_TERMINAL" for st
    by (simp add: chosen_action_cases terminal_env_def demo_env_def)
  have init: "trace demo_state = []"
    by (simp add: demo_state_def)
  show ?thesis
    using launchExecutable_terminal_flag [of terminal_env run_sh None demo_state]
    by (simp add: lp test act init list_all_iff)
qed

text \<open>
  Claim C7, as stated, fails: the way back is a \<^verbatim>\<open>chdir\<close> whose failure the source
  answers with a warning only. Here the process stands in a directory it cannot enter
  again; the launch moves it to the folder of the executable, and there it stays.
\<close>

theorem launchExecutable_restore_may_fail:
  "cwd locked_state = ''/locked'' \<and>
   launchExecutable demo_env run_sh None locked_state =
     Return True
       \<lparr>cwd = ''/home/u'',
        trace =
          [EFileTest (Some ''/home/u/run.sh''), EAskExecFile run_sh,
           ECreateFromCommandline (Some ([CHR 0x27] @ ''/home/u/run.sh'' @ [CHR 0x27]))
             G_APP_INFO_CREATE_NONE,
           EChdir ''/home/u'', EAppInfoLaunch 5 None, EChdir ''/locked'',
           EWarning ''fm_launch_files(): chdir() failed'']\<rparr>"
  by (simp add: run_defs demo_env_def run_sh_def plain_file_def locked_state_def
        demo_localPath_def demo_dirname_def)

text \<open>
  Claim C7, amended. \<^verbatim>\<open>launchExecutable\<close> always returns. Either it calls \<^verbatim>\<open>chdir\<close>
  not at all and the working directory is untouched; or the folder of the executable is
  some \<open>d\<close> other than \<^verbatim>\<open>.\<close> and it calls \<^verbatim>\<open>chdir\<close> for \<open>d\<close>. When that call fails,
  there is no other call and the working directory is untouched. When it succeeds, there
  is exactly one more call, for the directory the process started in, made in folder \<open>d\<close>
  after the launch: the working directory at the end is the one at the start exactly
  when this second call succeeds, and when it fails the trace ends with the failed call
  and the warning and the process is left in \<open>d\<close>. Each call is judged in the state in
  which it is made (\<open>pre\<close> and \<open>mid\<close> are the events before the first call and between
  the two).
\<close>

theorem launchExecutable_working_directory:
  "\<exists>r s' es. launchExecutable e fi ctx s = Return r s' \<and>
     trace s' = trace s @ EFileTest (localPath e (path fi)) # es \<and>
     (chdir_targets es = [] \<and> cwd s' = cwd s \<or>
      (\<exists>d pre post.
         g_path_get_dirname e (localPath e (path fi)) = Some d \<and> d \<noteq> ''.'' \<and>
         es = pre @ EChdir d # post \<and> chdir_targets pre = [] \<and>
         (sys_chdir e (state_after s (cwd s) (EFileTest (localPath e (path fi)) # pre)) d \<noteq> None \<and>
            chdir_targets post = [] \<and> cwd s' = cwd s \<or>
          sys_chdir e (state_after s (cwd s) (EFileTest (localPath e (path fi)) # pre)) d = None \<and>
            (\<exists>mid. chdir_targets mid = [] \<and>
               (sys_chdir e
                    (state_after s d (EFileTest (localPath e (path fi)) # pre @ EChdir d # mid))
                    (cwd s) = None \<and>
                  post = mid @ [EChdir (cwd s)] \<and> cwd s' = cwd s \<or>
                sys_chdir e
                    (state_after s d (EFileTest (localPath e (path fi)) # pre @ EChdir d # mid))
                    (cwd s) \<noteq> None \<and>
                  post = mid @ restore_failed (cwd s) \<and> cwd s' = d))))) \<and>
     ((\<forall>st. sys_chdir e st (cwd s) = None) \<longrightarrow> cwd s' = cwd s)"
proof -
  obtain r s' es where x: "launchExecutable e fi ctx s = Return r s'"
     "trace s' = trace s @ EFileTest (localPath e (path fi)) # es"
     "directory_discipline e (g_path_get_dirname e (localPath e (path fi))) s
       [EFileTest (localPath e (path fi))] es s'"
    using launchExecutable_discipline [of e fi ctx s] by blast
  have y: "(\<forall>st. sys_chdir e st (cwd s) = None) \<longrightarrow> cwd s' = cwd s"
    using x(3) unfolding directory_discipline_def by auto
  show ?thesis
    apply (rule exI [of _ r], rule exI [of _ s'], rule exI [of _ es])
    using x y unfolding directory_discipline_def
    apply simp
    done
qed

theorem launchExecutable_working_directory_witness:
  "(\<forall>st. sys_chdir demo_env st (cwd tmp_state) = None) \<and>
   (\<exists>r s'. launchExecutable demo_env run_sh None tmp_state = Return r s' \<and>
      cwd s' = cwd tmp_state \<and>
      chdir_targets (trace s') = [''/home/u'', ''/tmp''])"
proof -
  have ok: "\<forall>st. sys_chdir demo_env st (cwd tmp_state) = None"
    by (simp add: demo_env_def tmp_state_def)
  have here: "cwd tmp_state = ''/tmp''"
    by (simp add: tmp_state_def)
  show ?thesis
    using launchExecutable_working_directory [of demo_env run_sh None tmp_state] ok
    by (simp add: run_sh_at_tmp here)
qed

section \<open>The classification loop\<close>

lemma launchFiles_step_one_bucket:
  "launchFiles_step n e ctx fi b s = bucket_action n e ctx (spec_bucket fi) fi b s"
  by (simp add: launchFiles_step.simps spec_bucket_def keeping_def showError_def
        not_mounted_error_def Let_def)

lemma files_of_type_emplace:
  "files_of_type (emplace_back_at k v tbl) m =
     files_of_type tbl m @ (if m = k then [v] else [])"
  by (induction tbl) (auto simp add: files_of_type_def)

lemma keys_emplace:
  "map fst (emplace_back_at k v tbl) = (if k \<in> fst ` set tbl then map fst tbl else map fst tbl @ [k])"
  by (induction tbl) (force simp add: image_iff)+

lemma distinct_emplace:
  "distinct (map fst tbl) \<Longrightarrow> distinct (map fst (emplace_back_at k v tbl))"
  by (simp add: keys_emplace)

lemma emplace_member:
  "(m, fs) \<in> set (emplace_back_at k v tbl) \<Longrightarrow> (m, fs) \<in> set tbl \<or> fs \<noteq> []"
  by (induction tbl) (auto split: if_splits)

lemma nonempty_emplace:
  "groups_nonempty tbl \<Longrightarrow> groups_nonempty (emplace_back_at k v tbl)"
  unfolding groups_nonempty_def using emplace_member by blast

lemma groups_nonempty_Cons:
  "groups_nonempty ((m, fs) # tbl) \<longleftrightarrow> fs \<noteq> [] \<and> groups_nonempty tbl"
  by (auto simp add: groups_nonempty_def)

lemma step_buckets:
  assumes "launchFiles_step n e ctx fi b s = Return b' s'"
  shows "folderInfos b' = folderInfos b @ (if spec_bucket fi = Directory then [fi] else [])"
    and "mimeTypeToFiles b' =
           (if spec_bucket fi = GenericMime
            then emplace_back_at (mimeType fi) fi (mimeTypeToFiles b) else mimeTypeToFiles b)"
    and "spec_bucket fi \<notin> {MountablePending, MountableResolved, Shortcut} \<Longrightarrow>
           pathsToLaunch b' = pathsToLaunch b"
    and "length (pathsToLaunch b') \<le> Suc (length (pathsToLaunch b))"
  using assms
  by (cases "spec_bucket fi";
      auto simp add: launchFiles_step_one_bucket keeping_def split: result.splits if_splits)+

lemma classify_buckets:
  "launchFiles_classify n e ctx fis b s = Return b' s' \<Longrightarrow>
     folderInfos b' = folderInfos b @ filter (\<lambda>f. spec_bucket f = Directory) fis \<and>
     (\<forall>m. files_of_type (mimeTypeToFiles b') m =
            files_of_type (mimeTypeToFiles b) m @
            filter (\<lambda>f. spec_bucket f = GenericMime \<and> mimeType f = m) fis) \<and>
     (distinct (map fst (mimeTypeToFiles b)) \<longrightarrow> distinct (map fst (mimeTypeToFiles b'))) \<and>
     (groups_nonempty (mimeTypeToFiles b) \<longrightarrow> groups_nonempty (mimeTypeToFiles b')) \<and>
     ((\<forall>f \<in> set fis. spec_bucket f \<notin> {MountablePending, MountableResolved, Shortcut}) \<longrightarrow>
        pathsToLaunch b' = pathsToLaunch b)"
proof (induction fis arbitrary: b s)
  case Nil
  then show ?case by simp
next
  case (Cons fi fis)
  from Cons.prems obtain b1 s1 where
    st: "launchFiles_step n e ctx fi b s = Return b1 s1" and
    rest: "launchFiles_classify n e ctx fis b1 s1 = Return b' s'"
    by (auto split: result.splits)
  note ih = Cons.IH [OF rest]
  note sb = step_buckets [OF st]
  show ?case
    using ih sb
    by (auto simp add: files_of_type_emplace distinct_emplace nonempty_emplace)
qed

lemma classify_queue_bound:
  "launchFiles_classify n e ctx fis b s = Return b' s' \<Longrightarrow>
     length (pathsToLaunch b') \<le> length (pathsToLaunch b) +
       length (filter (\<lambda>f. spec_bucket f \<in> {MountablePending, MountableResolved, Shortcut}) fis)"
proof (induction fis arbitrary: b s)
  case Nil
  then show ?case by simp
next
  case (Cons fi fis)
  from Cons.prems obtain b1 s1 where
    st: "launchFiles_step n e ctx fi b s = Return b1 s1" and
    rest: "launchFiles_classify n e ctx fis b1 s1 = Return b' s'"
    by (auto split: result.splits)
  note ih = Cons.IH [OF rest]
  note sb = step_buckets [OF st]
  show ?case
  proof (cases "spec_bucket fi \<in> {MountablePending, MountableResolved, Shortcut}")
    case True
    with ih sb(4) show ?thesis by simp
  next
    case False
    with ih sb(3) show ?thesis by simp
  qed
qed

lemma table_from_classify:
  assumes "launchFiles_classify n e ctx fis no_buckets s = Return b s'"
  shows "distinct (map fst (mimeTypeToFiles b))"
    and "groups_nonempty (mimeTypeToFiles b)"
    and "\<forall>m fs. (m, fs) \<in> set (mimeTypeToFiles b) \<longrightarrow>
           fs \<noteq> [] \<and> fs = filter (\<lambda>f. spec_bucket f = GenericMime \<and> mimeType f = m) fis"
    and "fst ` set (mimeTypeToFiles b) = mimeType ` {f \<in> set fis. spec_bucket f = GenericMime}"
proof -
  note cb = classify_buckets [OF assms]
  have f: "files_of_type (mimeTypeToFiles b) m =
             filter (\<lambda>f. spec_bucket f = GenericMime \<and> mimeType f = m) fis" for m
    using cb by (simp add: no_buckets_def files_of_type_def)
  show d: "distinct (map fst (mimeTypeToFiles b))"
    using cb by (simp add: no_buckets_def)
  show ne: "groups_nonempty (mimeTypeToFiles b)"
    using cb by (simp add: no_buckets_def groups_nonempty_def)
  have g: "fs = files_of_type (mimeTypeToFiles b) m" if "(m, fs) \<in> set (mimeTypeToFiles b)"
    for m fs
    using that d by (simp add: files_of_type_def)
  show "\<forall>m fs. (m, fs) \<in> set (mimeTypeToFiles b) \<longrightarrow>
           fs \<noteq> [] \<and> fs = filter (\<lambda>f. spec_bucket f = GenericMime \<and> mimeType f = m) fis"
    using g f ne by (auto simp add: groups_nonempty_def)
  show "fst ` set (mimeTypeToFiles b) = mimeType ` {f \<in> set fis. spec_bucket f = GenericMime}"
  proof (intro set_eqI iffI)
    fix m assume "m \<in> fst ` set (mimeTypeToFiles b)"
    then obtain fs where in_tbl: "(m, fs) \<in> set (mimeTypeToFiles b)" by auto
    with ne have "fs \<noteq> []" by (auto simp add: groups_nonempty_def)
    moreover have "fs = filter (\<lambda>f. spec_bucket f = GenericMime \<and> mimeType f = m) fis"
      using g [OF in_tbl] f by simp
    ultimately obtain x where "x \<in> set fis" "spec_bucket x = GenericMime" "mimeType x = m"
      by (metis (mono_tags, lifting) filter_False)
    then show "m \<in> mimeType ` {f \<in> set fis. spec_bucket f = GenericMime}" by auto
  next
    fix m assume "m \<in> mimeType ` {f \<in> set fis. spec_bucket f = GenericMime}"
    then obtain x where "x \<in> set fis" "spec_bucket x = GenericMime" "mimeType x = m" by auto
    then have "filter (\<lambda>f. spec_bucket f = GenericMime \<and> mimeType f = m) fis \<noteq> []"
      by (auto simp add: filter_empty_conv)
    with f have "files_of_type (mimeTypeToFiles b) m \<noteq> []" by simp
    then obtain fs where "map_of (mimeTypeToFiles b) m = Some fs"
      by (auto simp add: files_of_type_def split: option.splits)
    then have "(m, fs) \<in> set (mimeTypeToFiles b)" by (rule map_of_SomeD)
    then show "m \<in> fst ` set (mimeTypeToFiles b)" by force
  qed
qed

lemma demo_buckets:
  "spec_bucket docs_dir = Directory"
  "spec_bucket run_sh = Executable"
  "spec_bucket a_txt = GenericMime"
  "spec_bucket b_txt = GenericMime"
  "spec_bucket c_png = GenericMime"
  "mimeType a_txt = ''text/plain''"
  "mimeType b_txt = ''text/plain''"
  "mimeType c_png = ''image/png''"
  by (simp_all add: spec_bucket_def docs_dir_def run_sh_def a_txt_def b_txt_def c_png_def
        plain_file_def)

lemma run_sh_at_home:
  "launchExecutable demo_env run_sh None demo_state = Return True scenario_state"
  by (simp add: run_defs demo_env_def run_sh_def plain_file_def demo_state_def
        scenario_state_def demo_localPath_def demo_dirname_def)

lemma scenario_classified:
  "launchFiles_classify 0 demo_env None scenario no_buckets demo_state
     = Return scenario_buckets scenario_state"
  by (simp add: scenario_def launchFiles_step_one_bucket demo_buckets run_sh_at_home
        keeping_def no_buckets_def scenario_buckets_def)

lemma mixed_classified:
  "launchFiles_classify 0 demo_env None mixed_files no_buckets demo_state
     = Return mixed_buckets demo_state"
  by (simp add: mixed_files_def launchFiles_step_one_bucket demo_buckets
        no_buckets_def mixed_buckets_def)

text \<open>
  Claim C1. The loop body of \<^verbatim>\<open>launchFiles\<close> does with a reference exactly what belongs
  to the one bucket the priority order of the specification puts it in (directory, then
  mountable with pending or resolved target, then desktop entry, executable, shortcut,
  generic), and nothing that belongs to another. Over a whole list: the folder batch
  grows by exactly the references of the directory bucket, in order; the table entry of
  every MIME-type name grows by exactly the generic references of that type; and the
  queue of paths grows by at most one path for each mountable or shortcut reference and
  not at all without them.
\<close>

theorem classification_exclusive:
  "launchFiles_step n e ctx fi b s = bucket_action n e ctx (spec_bucket fi) fi b s \<and>
   (launchFiles_classify n e ctx fis b s = Return b' s' \<longrightarrow>
      folderInfos b' = folderInfos b @ filter (\<lambda>f. spec_bucket f = Directory) fis \<and>
      (\<forall>m. files_of_type (mimeTypeToFiles b') m =
             files_of_type (mimeTypeToFiles b) m @
             filter (\<lambda>f. spec_bucket f = GenericMime \<and> mimeType f = m) fis) \<and>
      length (pathsToLaunch b') \<le> length (pathsToLaunch b) +
        length (filter (\<lambda>f. spec_bucket f \<in> {MountablePending, MountableResolved, Shortcut})
                  fis) \<and>
      ((\<forall>f \<in> set fis. spec_bucket f \<notin> {MountablePending, MountableResolved, Shortcut}) \<longrightarrow>
         pathsToLaunch b' = pathsToLaunch b))"
proof (intro conjI impI)
  show "launchFiles_step n e ctx fi b s = bucket_action n e ctx (spec_bucket fi) fi b s"
    by (rule launchFiles_step_one_bucket)
next
  assume r: "launchFiles_classify n e ctx fis b s = Return b' s'"
  note cb = classify_buckets [OF r]
  show "folderInfos b' = folderInfos b @ filter (\<lambda>f. spec_bucket f = Directory) fis"
    using cb by simp
  show "\<forall>m. files_of_type (mimeTypeToFiles b') m =
             files_of_type (mimeTypeToFiles b) m @
             filter (\<lambda>f. spec_bucket f = GenericMime \<and> mimeType f = m) fis"
    using cb by simp
  show "length (pathsToLaunch b') \<le> length (pathsToLaunch b) +
        length (filter (\<lambda>f. spec_bucket f \<in> {MountablePending, MountableResolved, Shortcut})
                  fis)"
    by (rule classify_queue_bound [OF r])
  assume "\<forall>f \<in> set fis. spec_bucket f \<notin> {MountablePending, MountableResolved, Shortcut}"
  with cb show "pathsToLaunch b' = pathsToLaunch b" by simp
qed

theorem classification_exclusive_witness:
  "launchFiles_classify 0 demo_env None scenario no_buckets demo_state
     = Return scenario_buckets scenario_state \<and>
   list_all (\<lambda>f. spec_bucket f \<notin> {MountablePending, MountableResolved, Shortcut}) scenario \<and>
   folderInfos scenario_buckets
     = folderInfos no_buckets @ filter (\<lambda>f. spec_bucket f = Directory) scenario \<and>
   files_of_type (mimeTypeToFiles scenario_buckets) ''text/plain''
     = files_of_type (mimeTypeToFiles no_buckets) ''text/plain'' @
       filter (\<lambda>f. spec_bucket f = GenericMime \<and> mimeType f = ''text/plain'') scenario \<and>
   pathsToLaunch scenario_buckets = pathsToLaunch no_buckets \<and>
   filter (\<lambda>f. spec_bucket f = Directory) scenario = [docs_dir] \<and>
   filter (\<lambda>f. spec_bucket f = GenericMime \<and> mimeType f = ''text/plain'') scenario
     = [a_txt, b_txt]"
proof -
  note c = classification_exclusive
             [of 0 demo_env None docs_dir no_buckets demo_state scenario
                 scenario_buckets scenario_state,
              THEN conjunct2, THEN mp, OF scenario_classified]
  have none_queued:
    "\<forall>f \<in> set scenario. spec_bucket f \<notin> {MountablePending, MountableResolved, Shortcut}"
    by (simp add: scenario_def demo_buckets)
  have folders: "folderInfos scenario_buckets
     = folderInfos no_buckets @ filter (\<lambda>f. spec_bucket f = Directory) scenario"
    by (rule c [THEN conjunct1])
  have texts: "files_of_type (mimeTypeToFiles scenario_buckets) ''text/plain''
     = files_of_type (mimeTypeToFiles no_buckets) ''text/plain'' @
       filter (\<lambda>f. spec_bucket f = GenericMime \<and> mimeType f = ''text/plain'') scenario"
    by (rule c [THEN conjunct2, THEN conjunct1, THEN spec])
  have queue: "pathsToLaunch scenario_buckets = pathsToLaunch no_buckets"
    by (rule c [THEN conjunct2, THEN conjunct2, THEN conjunct2, THEN mp, OF none_queued])
  have filtered: "filter (\<lambda>f. spec_bucket f = Directory) scenario = [docs_dir]"
    "filter (\<lambda>f. spec_bucket f = GenericMime \<and> mimeType f = ''text/plain'') scenario
       = [a_txt, b_txt]"
    by (simp_all add: scenario_def demo_buckets)
  have all: "list_all (\<lambda>f. spec_bucket f \<notin> {MountablePending, MountableResolved, Shortcut})
               scenario"
    using none_queued by (simp only: list_all_iff)
  show ?thesis
    by (intro conjI scenario_classified all folders texts queue filtered)
qed

section \<open>One launch per MIME type\<close>

lemma default_lookups_append [simp]:
  "default_lookups (xs @ ys) = default_lookups xs @ default_lookups ys"
  by (induction xs rule: default_lookups.induct) simp_all

lemma chooser_calls_append [simp]:
  "chooser_calls (xs @ ys) = chooser_calls xs @ chooser_calls ys"
  by (induction xs rule: chooser_calls.induct) simp_all

lemma launches_append [simp]:
  "launches (xs @ ys) = launches xs @ launches ys"
  by (induction xs rule: launches.induct) simp_all

lemma launchWithApp_events:
  "fs \<noteq> [] \<Longrightarrow>
   \<exists>r. launchWithApp e app (paths fs) ctx s =
     Return r (state_after s (cwd s) (launch_events e ctx app fs s))"
  by (cases fs)
     (auto simp add: launchWithApp_Cons launch_events_def group_uris_def paths_def showError_def
        record_event_def state_after_def state_norm Let_def split: prod.splits bool.splits)

lemma mime_round:
  assumes "fs \<noteq> []"
  shows "launchFiles_mimeTypes e ctx ((m, fs) # rest) s =
           launchFiles_mimeTypes e ctx rest (state_after s (cwd s) (round_events e ctx m fs s))"
proof (cases "g_app_info_get_default_for_type e s m")
  case (Some a)
  obtain r where "launchWithApp e (Some a) (paths fs) ctx (state_after s (cwd s) [EDefaultForType m]) =
     Return r (state_after s (cwd s) (EDefaultForType m #
        launch_events e ctx (Some a) fs (state_after s (cwd s) [EDefaultForType m])))"
    using launchWithApp_events [OF assms, of e "Some a" ctx "state_after s (cwd s) [EDefaultForType m]"]
    by auto
  then show ?thesis
    using Some
    by (simp add: round_events_def obtained_app_def record_event_def state_after_here)
next
  case None
  obtain app err where c: "chooseApp_v e (record_event (EDefaultForType m) s) fs m = (app, err)"
    by (cases "chooseApp_v e (record_event (EDefaultForType m) s) fs m")
  show ?thesis
  proof (cases app)
    case no_app: None
    show ?thesis
      using None c no_app
      by (simp add: round_events_def obtained_app_def chooseApp_def record_event_def
            state_after_def state_norm)
  next
    case (Some a)
    let ?s2 = "state_after s (cwd s) [EDefaultForType m, EChooseApp fs m]"
    obtain r where "launchWithApp e (Some a) (paths fs) ctx ?s2 =
       Return r (state_after s (cwd s) (EDefaultForType m # EChooseApp fs m #
          launch_events e ctx (Some a) fs ?s2))"
      using launchWithApp_events [OF assms, of e "Some a" ctx ?s2] by auto
    then show ?thesis
      using None c Some
      by (simp add: round_events_def obtained_app_def chooseApp_def record_event_def
            state_after_def state_norm)
  qed
qed

lemma mime_stage:
  "groups_nonempty tbl \<Longrightarrow>
   launchFiles_mimeTypes e ctx tbl s =
     Return () (state_after s (cwd s) (rounds_events e ctx tbl s))"
proof (induction tbl arbitrary: s)
  case Nil
  show ?case by simp
next
  case (Cons g tbl)
  obtain m fs where g: "g = (m, fs)" by (cases g)
  from Cons.prems g have ne: "fs \<noteq> []" and rest: "groups_nonempty tbl"
    by (simp_all add: groups_nonempty_Cons)
  show ?case
    unfolding g using mime_round [OF ne] Cons.IH [OF rest] by simp
qed

lemma round_lookups: "default_lookups (round_events e ctx m fs s) = [m]"
  by (simp add: round_events_def launch_events_def Let_def
        split: option.splits prod.splits bool.splits)

lemma round_choosers:
  "chooser_calls (round_events e ctx m fs s) =
     (if g_app_info_get_default_for_type e s m = None then [(m, fs)] else [])"
  by (simp add: round_events_def launch_events_def Let_def
        split: option.splits prod.splits bool.splits)

lemma round_launches:
  "launches (round_events e ctx m fs s) =
     (case obtained_app e s m fs of None \<Rightarrow> [] | Some a \<Rightarrow> [(Some a, group_uris e fs)])"
  by (simp add: round_events_def launch_events_def Let_def
        split: option.splits prod.splits bool.splits)

lemma rounds_lookups: "default_lookups (rounds_events e ctx tbl s) = map fst tbl"
  by (induction tbl arbitrary: s) (auto simp add: round_lookups)

lemma rounds_choosers: "subseq (chooser_calls (rounds_events e ctx tbl s)) tbl"
  by (induction e ctx tbl s rule: rounds_events.induct)
     (simp_all add: round_choosers list_emb_Cons)

lemma rounds_launches:
  "subseq (map snd (launches (rounds_events e ctx tbl s))) (map (\<lambda>g. group_uris e (snd g)) tbl)"
  by (induction e ctx tbl s rule: rounds_events.induct)
     (simp_all add: round_launches list_emb_Cons split: option.splits)

lemma rounds_handles:
  "list_all (\<lambda>l. fst l \<noteq> None) (launches (rounds_events e ctx tbl s))"
  by (induction tbl arbitrary: s) (auto simp add: round_launches split: option.splits)


lemma mixed_walk:
  "walk_order demo_env (mimeTypeToFiles mixed_buckets) =
     [(''image/png'', [c_png]), (''text/plain'', [a_txt, b_txt])]"
  by (simp add: walk_order_def mixed_buckets_def demo_env_def)

lemma mixed_rounds:
  "rounds_events demo_env None [(''image/png'', [c_png]), (''text/plain'', [a_txt, b_txt])]
       demo_state =
     [EDefaultForType ''image/png'', EChooseApp [c_png] ''image/png'',
      EDefaultForType ''text/plain'',
      ELaunchUris (Some 1) [''file:///home/u/b.txt'', ''file:///home/u/a.txt''] None]"
  by (simp add: round_events_def launch_events_def obtained_app_def group_uris_def paths_def
        record_event_def demo_state_def demo_env_def demo_uri_def a_txt_def b_txt_def
        plain_file_def state_after_def)

text \<open>
  Claim C5. The table the classification builds has one entry per MIME-type name that a
  generic reference has, and the entry holds all generic references of that name. In
  whatever order the hash map is walked, the second loop of \<^verbatim>\<open>launchFiles\<close> returns,
  having left in the trace the rounds of the entries met, one after the other, and
  nothing else; so it looks up the default application once per entry, its calls of
  \<^verbatim>\<open>chooseApp\<close> are for entries of the table, each at most once, and every launch it
  makes is with an application handle and the whole URI list of an entry, each entry at
  most once. The round of an entry looks the default up, calls \<^verbatim>\<open>chooseApp\<close> exactly
  when there is none, and launches exactly when an application was obtained: once, that
  application, with the whole list. (\<^verbatim>\<open>launchWithApp\<close> builds the URI list by
  prepending, so the list is handed over in reverse order.)
\<close>

theorem mime_groups_launched_once:
  "(launchFiles_classify n e ctx fis no_buckets s0 = Return b s1 \<longrightarrow>
      distinct (map fst (walk_order e (mimeTypeToFiles b))) \<and>
      set (map fst (walk_order e (mimeTypeToFiles b)))
        = mimeType ` {f \<in> set fis. spec_bucket f = GenericMime} \<and>
      (\<forall>m fs. (m, fs) \<in> set (walk_order e (mimeTypeToFiles b)) \<longrightarrow>
         fs \<noteq> [] \<and> fs = filter (\<lambda>f. spec_bucket f = GenericMime \<and> mimeType f = m) fis) \<and>
      launchFiles_mimeTypes e ctx (walk_order e (mimeTypeToFiles b)) s =
        Return ()
          (state_after s (cwd s) (rounds_events e ctx (walk_order e (mimeTypeToFiles b)) s)) \<and>
      default_lookups (rounds_events e ctx (walk_order e (mimeTypeToFiles b)) s)
        = map fst (walk_order e (mimeTypeToFiles b)) \<and>
      subseq (chooser_calls (rounds_events e ctx (walk_order e (mimeTypeToFiles b)) s))
        (walk_order e (mimeTypeToFiles b)) \<and>
      subseq (map snd (launches (rounds_events e ctx (walk_order e (mimeTypeToFiles b)) s)))
        (map (\<lambda>g. group_uris e (snd g)) (walk_order e (mimeTypeToFiles b))) \<and>
      list_all (\<lambda>l. fst l \<noteq> None)
        (launches (rounds_events e ctx (walk_order e (mimeTypeToFiles b)) s))) \<and>
   (fs \<noteq> [] \<longrightarrow>
      launchFiles_mimeTypes e ctx ((m, fs) # rest) s =
        launchFiles_mimeTypes e ctx rest (state_after s (cwd s) (round_events e ctx m fs s)) \<and>
      default_lookups (round_events e ctx m fs s) = [m] \<and>
      chooser_calls (round_events e ctx m fs s) =
        (if g_app_info_get_default_for_type e s m = None then [(m, fs)] else []) \<and>
      launches (round_events e ctx m fs s) =
        (case obtained_app e s m fs of None \<Rightarrow> [] | Some a \<Rightarrow> [(Some a, group_uris e fs)]))"
proof (intro conjI impI)
  assume r: "launchFiles_classify n e ctx fis no_buckets s0 = Return b s1"
  note t = table_from_classify [OF r]
  show "distinct (map fst (walk_order e (mimeTypeToFiles b)))"
    using t(1) by simp
  show "set (map fst (walk_order e (mimeTypeToFiles b)))
          = mimeType ` {f \<in> set fis. spec_bucket f = GenericMime}"
    using t(4) by simp
  show "\<forall>m fs. (m, fs) \<in> set (walk_order e (mimeTypeToFiles b)) \<longrightarrow>
         fs \<noteq> [] \<and> fs = filter (\<lambda>f. spec_bucket f = GenericMime \<and> mimeType f = m) fis"
    using t(3) by simp
  have "groups_nonempty (walk_order e (mimeTypeToFiles b))"
    using t(2) by (simp add: groups_nonempty_def)
  then show "launchFiles_mimeTypes e ctx (walk_order e (mimeTypeToFiles b)) s =
        Return ()
          (state_after s (cwd s) (rounds_events e ctx (walk_order e (mimeTypeToFiles b)) s))"
    by (rule mime_stage)
next
  assume "fs \<noteq> []"
  then show "launchFiles_mimeTypes e ctx ((m, fs) # rest) s =
        launchFiles_mimeTypes e ctx rest (state_after s (cwd s) (round_events e ctx m fs s))"
    by (rule mime_round)
qed (rule rounds_lookups rounds_choosers rounds_launches rounds_handles round_lookups
       round_choosers round_launches)+

theorem mime_groups_launched_once_witness:
  "launchFiles_classify 0 demo_env None mixed_files no_buckets demo_state
     = Return mixed_buckets demo_state \<and>
   walk_order demo_env (mimeTypeToFiles mixed_buckets) =
     [(''image/png'', [c_png]), (''text/plain'', [a_txt, b_txt])] \<and>
   rounds_events demo_env None [(''image/png'', [c_png]), (''text/plain'', [a_txt, b_txt])]
       demo_state =
     [EDefaultForType ''image/png'', EChooseApp [c_png] ''image/png'',
      EDefaultForType ''text/plain'',
      ELaunchUris (Some 1) [''file:///home/u/b.txt'', ''file:///home/u/a.txt''] None] \<and>
   distinct (map fst (walk_order demo_env (mimeTypeToFiles mixed_buckets))) \<and>
   launchFiles_mimeTypes demo_env None (walk_order demo_env (mimeTypeToFiles mixed_buckets))
       demo_state =
     Return ()
       (state_after demo_state (cwd demo_state)
          (rounds_events demo_env None (walk_order demo_env (mimeTypeToFiles mixed_buckets))
             demo_state)) \<and>
   default_lookups
       (rounds_events demo_env None (walk_order demo_env (mimeTypeToFiles mixed_buckets))
          demo_state)
     = map fst (walk_order demo_env (mimeTypeToFiles mixed_buckets)) \<and>
   [a_txt, b_txt] \<noteq> [] \<and>
   launchFiles_mimeTypes demo_env None [(''text/plain'', [a_txt, b_txt])] demo_state =
     launchFiles_mimeTypes demo_env None []
       (state_after demo_state (cwd demo_state)
          (round_events demo_env None ''text/plain'' [a_txt, b_txt] demo_state)) \<and>
   launches (round_events demo_env None ''text/plain'' [a_txt, b_txt] demo_state) =
     (case obtained_app demo_env demo_state ''text/plain'' [a_txt, b_txt] of
        None \<Rightarrow> []
      | Some a \<Rightarrow> [(Some a, group_uris demo_env [a_txt, b_txt])]) \<and>
   obtained_app demo_env demo_state ''text/plain'' [a_txt, b_txt] = Some 1 \<and>
   group_uris demo_env [a_txt, b_txt] = [''file:///home/u/b.txt'', ''file:///home/u/a.txt'']"
proof -
  have two: "[a_txt, b_txt] \<noteq> []"
    by simp
  note round = mime_groups_launched_once
             [where n = 0 and e = demo_env and ctx = None and fis = mixed_files
                and ?s0.0 = demo_state and b = mixed_buckets and ?s1.0 = demo_state
                and s = demo_state and fs = "[a_txt, b_txt]" and m = "''text/plain''"
                and rest = "[]",
              THEN conjunct2, THEN mp, OF two]
  note c = mime_groups_launched_once
             [where n = 0 and e = demo_env and ctx = None and fis = mixed_files
                and ?s0.0 = demo_state and b = mixed_buckets and ?s1.0 = demo_state
                and s = demo_state and fs = "[a_txt]" and m = "''text/plain''"
                and rest = "[]",
              THEN conjunct1, THEN mp, OF mixed_classified]
  have app: "obtained_app demo_env demo_state ''text/plain'' [a_txt, b_txt] = Some 1"
    by (simp add: obtained_app_def demo_env_def)
  have uris: "group_uris demo_env [a_txt, b_txt]
      = [''file:///home/u/b.txt'', ''file:///home/u/a.txt'']"
    by (simp add: group_uris_def paths_def demo_env_def demo_uri_def a_txt_def b_txt_def
          plain_file_def)
  show ?thesis
    by (intro conjI)
       (rule mixed_classified mixed_walk mixed_rounds two app uris
          c [THEN conjunct1]
          c [THEN conjunct2, THEN conjunct2, THEN conjunct2, THEN conjunct1]
          c [THEN conjunct2, THEN conjunct2, THEN conjunct2, THEN conjunct2, THEN conjunct1]
          round [THEN conjunct1]
          round [THEN conjunct2, THEN conjunct2, THEN conjunct2])+
qed

section \<open>The value \<^verbatim>\<open>launchFiles\<close> returns\<close>

subsection \<open>Every failed call is answered\<close>

text \<open>
  Whatever a function of the dispatcher returns, the run is accounted for. First the
  functions that call no dispatch.
\<close>

lemma trace_apply_event [simp]: "trace (apply_event e ev s) = trace s @ [ev]"
  by (cases ev) (simp_all add: apply_event_def chdir_eq record_event_def split: option.splits)

lemma trace_replay [simp]: "trace (replay e s es) = trace s @ es"
  by (induction es arbitrary: s) simp_all

lemma replay_append [simp]: "replay e s (xs @ ys) = replay e (replay e s xs) ys"
  by (induction xs arbitrary: s) simp_all

lemma answered_more:
  "answered e s ev (case xs of [] \<Rightarrow> None | nxt # _ \<Rightarrow> Some nxt) \<Longrightarrow>
   answered e s ev (case xs @ ys of [] \<Rightarrow> None | nxt # _ \<Rightarrow> Some nxt)"
  by (cases xs; cases ev)
     (auto simp add: answered_def split: prod.splits bool.splits option.splits)

lemma failures_answered_append:
  "failures_answered e s xs \<Longrightarrow> failures_answered e (replay e s xs) ys \<Longrightarrow>
   failures_answered e s (xs @ ys)"
  by (induction xs arbitrary: s) (simp_all add: answered_more)

lemma accountedI:
  "s' = replay e s es \<Longrightarrow> failures_answered e s es \<Longrightarrow> accounted e s s'"
  by (simp add: accounted_def)

lemma accountedD:
  "accounted e s s' \<Longrightarrow>
   \<exists>es. trace s' = trace s @ es \<and> s' = replay e s es \<and> failures_answered e s es"
  unfolding accounted_def
  by (metis trace_replay)

lemma accounted_refl [simp]: "accounted e s s"
  by (simp add: accounted_def)

lemma accounted_trans:
  assumes "accounted e s s1" and "accounted e s1 s2"
  shows "accounted e s s2"
proof -
  from accountedD [OF assms(1)] obtain xs where
    x: "s1 = replay e s xs" "failures_answered e s xs" by blast
  from accountedD [OF assms(2)] obtain ys where
    y: "s2 = replay e s1 ys" "failures_answered e s1 ys" by blast
  have "s2 = replay e s (xs @ ys)"
    using x y by simp
  moreover have "failures_answered e s (xs @ ys)"
    using x y by (simp add: failures_answered_append)
  ultimately show ?thesis
    by (rule accountedI)
qed

lemma accounted_event:
  "answered e s ev None \<Longrightarrow> accounted e s (apply_event e ev s)"
  by (rule accountedI [of _ _ _ "[ev]"]) simp_all

lemma accounted_events:
  "failures_answered e s es \<Longrightarrow> accounted e s (replay e s es)"
  by (rule accountedI) simp_all


lemmas accounted_defs =
  accounted_result_def accounted_def answered_def apply_event_def chdir_eq record_event_def
  showError_def chooseApp_def askExecFile_def Let_def

lemma accounted_result_Return [simp]:
  "accounted_result e s (Return x s') = accounted e s s'"
  by (simp add: accounted_result_def)

lemma accounted_result_others [simp]:
  "accounted_result e s UndefinedBehaviour" "accounted_result e s OutOfFuel"
  by (simp_all add: accounted_result_def)

lemma accounted_bind:
  assumes "accounted_result e s r"
    and "\<And>x s1. r = Return x s1 \<Longrightarrow> accounted_result e s1 (k x s1)"
  shows "accounted_result e s
           (case r of Return x s1 \<Rightarrow> k x s1 | UndefinedBehaviour \<Rightarrow> UndefinedBehaviour
            | OutOfFuel \<Rightarrow> OutOfFuel)"
proof (cases r)
  case (Return x s1)
  with assms(1) have a: "accounted e s s1" by simp
  from assms(2) [OF Return] have b: "accounted_result e s1 (k x s1)" .
  show ?thesis
    using Return a b
    by (cases "k x s1") (auto intro: accounted_trans)
qed simp_all

lemma accounted_then:
  "accounted e s s1 \<Longrightarrow> accounted_result e s1 r \<Longrightarrow> accounted_result e s r"
  by (cases r) (auto intro: accounted_trans)

lemma accounted_showError: "accounted e s (snd (showError e ctx err p info s))"
  by (simp add: accounted_defs)

lemma accounted_chooseApp: "accounted e s (snd (chooseApp e fs m s))"
  by (simp add: accounted_defs)

lemma accounted_chosen_action: "accounted e s (snd (chosen_action e fi s))"
  by (simp add: chosen_action_def accounted_defs)

lemma accounted_launchWithApp: "accounted_result e s (launchWithApp e app ps ctx s)"
  by (cases ps)
     (auto simp add: launchWithApp_def accounted_defs split: prod.splits bool.splits)

lemma accounted_launchWithDefaultApp:
  "accounted_result e s (launchWithDefaultApp e fi ctx s)"
proof -
  have a: "accounted e s (record_event (EDefaultForType (mimeType fi)) s)"
    by (simp add: accounted_defs)
  show ?thesis
    unfolding launchWithDefaultApp_def Let_def
    by (auto split: option.splits
          intro!: accounted_then [OF a] accounted_launchWithApp accounted_showError
          intro: accounted_trans [OF a])
qed


lemma accounted_openFolder: "accounted_result e s (openFolder e ctx fs s)"
proof -
  have a: "accounted e s (record_event (EChooseApp fs ''inode/directory'') s)"
    by (simp add: accounted_defs)
  show ?thesis
    unfolding openFolder_def chooseApp_def Let_def
    by (auto split: option.splits prod.splits
          intro!: accounted_then [OF a] accounted_bind accounted_launchWithApp
          intro: accounted_trans [OF a accounted_showError])
qed

lemma accounted_launchDesktopEntryName:
  "accounted_result e s (launchDesktopEntryName e name ps ctx s)"
proof (cases "registry_lookup e s name")
  case None
  then show ?thesis
    by (simp add: launchDesktopEntryName_eq registry_event_def registry_lookup_def accounted_defs
          split: if_splits)
next
  case (Some a)
  then have a: "accounted e s (record_event (registry_event e name) s)"
    by (simp add: registry_event_def registry_lookup_def accounted_defs split: if_splits)
  show ?thesis
    using Some
    by (simp add: launchDesktopEntryName_eq accounted_then [OF a accounted_launchWithApp])
qed

lemma accounted_handleShortcut: "accounted_result e s (handleShortcut e fi ctx s)"
proof -
  have a: "accounted e s (record_event (EDefaultForUriScheme scheme) s)" for scheme
    by (simp add: accounted_defs)
  show ?thesis
    unfolding handleShortcut_def Let_def
    by (auto split: option.splits
          intro!: accounted_then [OF a] accounted_bind accounted_launchWithApp)
qed

lemma accounted_run: "accounted e s (snd (launchExecutable_run e a fn ctx s))"
  by (auto simp add: launchExecutable_run_def accounted_defs
        split: option.splits prod.splits bool.splits)


lemma accounted_exec: "accounted e s (snd (launchExecutable_exec e fn flags ctx s))"
proof -
  have a: "accounted e s (record_event (ECreateFromCommandline q flags) s)" for q
    by (simp add: accounted_defs)
  show ?thesis
    unfolding launchExecutable_exec_def Let_def
    by (auto split: option.splits intro: a accounted_trans [OF a accounted_run])
qed

lemma accounted_launchExecutable: "accounted_result e s (launchExecutable e fi ctx s)"
proof -
  let ?s0 = "record_event (EFileTest (localPath e (path fi))) s"
  have a: "accounted e s ?s0"
    by (simp add: accounted_defs)
  have b: "accounted e s (snd (chosen_action e fi ?s0))"
    by (rule accounted_trans [OF a accounted_chosen_action])
  obtain act s1 where ca: "chosen_action e fi ?s0 = (act, s1)"
    by (cases "chosen_action e fi ?s0")
  with b have s1: "accounted e s s1" by simp
  have x: "accounted e s s2" if "launchExecutable_exec e fn fl ctx s1 = (r, s2)" for fn fl r s2
    using accounted_trans [OF s1 accounted_exec [of e s1 fn fl ctx]] that by simp
  show ?thesis
  proof (cases "g_file_test_is_executable e s (localPath e (path fi))")
    case False
    with a show ?thesis
      by (simp add: launchExecutable_def)
  next
    case True
    show ?thesis
      using True ca s1 accounted_then [OF s1 accounted_launchWithDefaultApp]
      by (cases act)
         (auto simp add: launchExecutable_def Let_def chosen_action_def split: prod.splits
            intro: x)
  qed
qed

lemma accounted_mimeTypes: "accounted_result e s (launchFiles_mimeTypes e ctx tbl s)"
proof (induction tbl arbitrary: s)
  case Nil
  show ?case by simp
next
  case (Cons g tbl)
  obtain m fs where g: "g = (m, fs)" by (cases g)
  let ?s1 = "record_event (EDefaultForType m) s"
  have a: "accounted e s ?s1"
    by (simp add: accounted_defs)
  have b: "accounted e s (snd (chooseApp e fs m ?s1))"
    by (rule accounted_trans [OF a accounted_chooseApp])
  have next_round: "accounted_result e s
      (case r of Return x s3 \<Rightarrow> launchFiles_mimeTypes e ctx tbl s3
       | UndefinedBehaviour \<Rightarrow> UndefinedBehaviour | OutOfFuel \<Rightarrow> OutOfFuel)"
    if "accounted_result e s r" for r :: "bool result"
    using that by (rule accounted_bind) (rule Cons.IH)
  show ?case
  proof (cases "g_app_info_get_default_for_type e s m")
    case (Some app)
    have "accounted_result e s (launchWithApp e (Some app) (paths fs) ctx ?s1)"
      by (rule accounted_then [OF a accounted_launchWithApp])
    from next_round [OF this] show ?thesis
      using Some by (simp add: g)
  next
    case None
    obtain app err s2 where c: "chooseApp e fs m ?s1 = ((app, err), s2)"
      by (cases "chooseApp e fs m ?s1") auto
    with b have s2: "accounted e s s2" by simp
    have "accounted_result e s
        (case app of Some a \<Rightarrow> launchWithApp e (Some a) (paths fs) ctx s2
         | None \<Rightarrow> Return False s2)"
      using s2 by (cases app) (auto intro: accounted_then [OF s2 accounted_launchWithApp])
    from next_round [OF this] show ?thesis
      using None c by (simp add: g)
  qed
qed

text \<open>
  The same for the functions that call one another, up the call order from
  \<open>launchPaths\<close>, whose own case is an induction on the bound.
\<close>

lemma accounted_tail:
  assumes "\<And>e ps ctx s. accounted_result e s (launchPaths n e ps ctx s)"
  shows "accounted_result e s (launchDesktopEntry_tail n e d sp ps ctx s)"
  unfolding launchDesktopEntry_tail.simps
  by (auto split: option.splits
        intro!: accounted_launchDesktopEntryName accounted_bind assms)

lemma accounted_launchDesktopEntry:
  assumes "\<And>e ps ctx s. accounted_result e s (launchPaths n e ps ctx s)"
  shows "accounted_result e s (launchDesktopEntry n e fi ps ctx s)"
proof -
  note tail = accounted_tail [OF assms]
  obtain act s1 where ca: "chosen_action e fi s = (act, s1)"
    by (cases "chosen_action e fi s")
  with accounted_chosen_action [of e s fi] have s1: "accounted e s s1" by simp
  show ?thesis
    unfolding launchDesktopEntry.simps Let_def
    using ca s1
    by (auto simp add: chosen_action_def split: prod.splits
          intro!: tail accounted_then [OF s1] accounted_bind accounted_handleShortcut
            accounted_launchWithDefaultApp)
qed

lemma accounted_step:
  assumes "\<And>e ps ctx s. accounted_result e s (launchPaths n e ps ctx s)"
  shows "accounted_result e s (launchFiles_step n e ctx fi b s)"
  unfolding launchFiles_step.simps Let_def
  by (auto split: prod.splits
        intro!: accounted_bind accounted_launchDesktopEntry [OF assms] accounted_launchExecutable
          accounted_handleShortcut
        simp add: accounted_showError [of e s, simplified showError_def, simplified] showError_def)

lemma accounted_classify:
  assumes "\<And>e ps ctx s. accounted_result e s (launchPaths n e ps ctx s)"
  shows "accounted_result e s (launchFiles_classify n e ctx fis b s)"
  by (induction fis arbitrary: b s)
     (auto intro!: accounted_bind accounted_step [OF assms])

lemma accounted_launchFiles_step:
  assumes "\<And>e ps ctx s. accounted_result e s (launchPaths n e ps ctx s)"
  shows "accounted_result e s (launchFiles n e fis ctx s)"
  unfolding launchFiles.simps
  by (auto intro!: accounted_bind accounted_classify [OF assms] accounted_openFolder
        accounted_mimeTypes assms)

lemma accounted_launchPaths: "accounted_result e s (launchPaths n e ps ctx s)"
proof (induction n arbitrary: e ps ctx s)
  case 0
  show ?case by simp
next
  case (Suc n)
  have a: "accounted e s (record_event (EFileInfoJob ps) s)"
    by (simp add: accounted_defs)
  show ?case
    unfolding launchPaths.simps Let_def
    by (auto intro!: accounted_then [OF a] accounted_bind accounted_launchFiles_step Suc.IH)
qed

lemma accounted_launchFiles: "accounted_result e s (launchFiles n e fis ctx s)"
  by (rule accounted_launchFiles_step [OF accounted_launchPaths])


subsection \<open>The batches\<close>

lemma launchFiles_value:
  "launchFiles n e fis ctx s = Return r s' \<Longrightarrow> r"
  by (auto simp add: launchFiles.simps split: result.splits)

lemma openFolder_events:
  assumes "fs \<noteq> []"
  shows "openFolder e ctx fs s =
           Return False (state_after s (cwd s) (folder_events e ctx fs s))"
proof -
  let ?s1 = "state_after s (cwd s) [EChooseApp fs ''inode/directory'']"
  obtain app err where c: "chooseApp_v e s fs ''inode/directory'' = (app, err)"
    by (cases "chooseApp_v e s fs ''inode/directory''")
  show ?thesis
  proof (cases app)
    case None
    with c assms show ?thesis
      by (simp add: openFolder_def folder_events_def chooseApp_def showError_def
            record_event_def state_after_def state_norm)
  next
    case (Some a)
    obtain r where "launchWithApp e (Some a) (paths fs) ctx ?s1 =
        Return r (state_after s (cwd s)
          (EChooseApp fs ''inode/directory'' # launch_events e ctx (Some a) fs ?s1))"
      using launchWithApp_events [OF assms, of e "Some a" ctx ?s1] by auto
    with c Some assms show ?thesis
      by (simp add: openFolder_def folder_events_def chooseApp_def record_event_def
            state_after_here)
  qed
qed

lemma launchFiles_batches:
  "launchFiles n e fis ctx s =
     (case launchFiles_classify n e ctx fis no_buckets s of
        Return b s1 \<Rightarrow>
          if pathsToLaunch b = []
          then Return True (state_after s1 (cwd s1) (batch_events e ctx b s1))
          else returning_true
                 (launchPaths n e (pathsToLaunch b) ctx
                    (state_after s1 (cwd s1) (batch_events e ctx b s1)))
      | UndefinedBehaviour \<Rightarrow> UndefinedBehaviour
      | OutOfFuel \<Rightarrow> OutOfFuel)"
proof (cases "launchFiles_classify n e ctx fis no_buckets s")
  case (Return b s1)
  let ?s2 = "state_after s1 (cwd s1) (folder_events e ctx (folderInfos b) s1)"
  have f: "(if folderInfos b \<noteq> [] then openFolder e ctx (folderInfos b) s1
            else Return False s1) = Return False ?s2"
    by (simp add: openFolder_events) (simp add: folder_events_def)
  have "groups_nonempty (walk_order e (mimeTypeToFiles b))"
    using table_from_classify(2) [OF Return] by (simp add: groups_nonempty_def)
  then have m: "launchFiles_mimeTypes e ctx (walk_order e (mimeTypeToFiles b)) ?s2 =
      Return () (state_after s1 (cwd s1) (batch_events e ctx b s1))"
    by (simp add: mime_stage batch_events_def)
  show ?thesis
    by (simp add: launchFiles.simps Return f m returning_true_def)
qed (simp_all add: launchFiles.simps)

lemma step_plain_returns:
  assumes "spec_bucket fi \<in> {Directory, Executable, GenericMime}"
  shows "\<exists>b' s'. launchFiles_step n e ctx fi b s = Return b' s'"
proof -
  obtain r s' where "launchExecutable e fi ctx s = Return r s'"
    using launchExecutable_effect [of e fi ctx s] by blast
  with assms show ?thesis
    by (auto simp add: launchFiles_step_one_bucket keeping_def)
qed

lemma classify_plain_returns:
  "\<forall>f \<in> set fis. spec_bucket f \<in> {Directory, Executable, GenericMime} \<Longrightarrow>
   \<exists>b' s'. launchFiles_classify n e ctx fis b s = Return b' s'"
proof (induction fis arbitrary: b s)
  case Nil
  show ?case by simp
next
  case (Cons fi fis)
  from Cons.prems have "spec_bucket fi \<in> {Directory, Executable, GenericMime}" by simp
  from step_plain_returns [OF this, of n e ctx b s] obtain b1 s1 where
    st: "launchFiles_step n e ctx fi b s = Return b1 s1" by blast
  from Cons.prems have "\<forall>f \<in> set fis. spec_bucket f \<in> {Directory, Executable, GenericMime}"
    by simp
  from Cons.IH [OF this, of b1 s1] st show ?case by simp
qed

lemma launchFiles_plain_returns:
  assumes "\<forall>f \<in> set fis. spec_bucket f \<in> {Directory, Executable, GenericMime}"
  shows "\<exists>s'. launchFiles n e fis ctx s = Return True s'"
proof -
  from classify_plain_returns [OF assms, of n e ctx no_buckets s] obtain b s1 where
    c: "launchFiles_classify n e ctx fis no_buckets s = Return b s1" by blast
  have "\<forall>f \<in> set fis. spec_bucket f \<notin> {MountablePending, MountableResolved, Shortcut}"
    using assms by auto
  with classify_buckets [OF c] have "pathsToLaunch b = []"
    by (simp add: no_buckets_def)
  with c show ?thesis by (simp add: launchFiles_batches)
qed

subsection \<open>A deeper bound changes no result\<close>

text \<open>
  If a call returns, or runs into the undefined read, within a bound on the depth of
  re-dispatch, it does the same within every greater bound. The proof goes up the call
  order from \<open>launchPaths\<close>.
\<close>

lemma tail_mono:
  assumes mono: "\<And>e ps ctx s. launchPaths n e ps ctx s \<noteq> OutOfFuel \<Longrightarrow>
                   launchPaths (n + k) e ps ctx s = launchPaths n e ps ctx s"
    and "launchDesktopEntry_tail n e d sp ps ctx s \<noteq> OutOfFuel"
  shows "launchDesktopEntry_tail (n + k) e d sp ps ctx s
           = launchDesktopEntry_tail n e d sp ps ctx s"
proof (cases "d = None \<and> sp \<noteq> []")
  case False
  then show ?thesis
    by (auto simp add: launchDesktopEntry_tail.simps split: option.splits)
next
  case True
  with assms(2) have "launchPaths n e sp ctx s \<noteq> OutOfFuel"
    by (auto simp add: launchDesktopEntry_tail.simps split: result.splits)
  then have "launchPaths (n + k) e sp ctx s = launchPaths n e sp ctx s"
    by (rule mono)
  with True show ?thesis
    by (simp add: launchDesktopEntry_tail.simps)
qed

lemma launchDesktopEntry_shape:
  "(\<exists>d sp s1. \<forall>m. launchDesktopEntry m e fi ps ctx s
                     = launchDesktopEntry_tail m e d sp ps ctx s1) \<or>
   (\<exists>r. \<forall>m. launchDesktopEntry m e fi ps ctx s = r)"
proof (cases "isExecutableType fi")
  case False
  show ?thesis
  proof (cases "isNative fi \<or> hasUriScheme e (path fi) ''menu''")
    case True
    have "\<forall>m. launchDesktopEntry m e fi ps ctx s =
            launchDesktopEntry_tail m e
              (if target fi \<noteq> [] then Some (target fi) else localPath e (path fi)) [] ps ctx s"
      using False True by (simp add: launchDesktopEntry.simps Let_def)
    then show ?thesis by blast
  next
    case other: False
    have "\<forall>m. launchDesktopEntry m e fi ps ctx s =
            launchDesktopEntry_tail m e None [] ps ctx s"
      using False other by (simp add: launchDesktopEntry.simps Let_def)
    then show ?thesis by blast
  qed
next
  case True
  obtain act s1 where ca: "chosen_action e fi s = (act, s1)"
    by (cases "chosen_action e fi s")
  show ?thesis
  proof (cases "act = EXEC_IN_TERMINAL \<or> act = DIRECT_EXEC")
    case False
    with True ca show ?thesis
      by (intro disjI2) (auto simp add: launchDesktopEntry.simps Let_def chosen_action_def)
  next
    case exec: True
    show ?thesis
    proof (cases "isShortcut fi")
      case False
      with True ca exec show ?thesis
        by (intro disjI1) (auto simp add: launchDesktopEntry.simps Let_def chosen_action_def)
    next
      case sc: True
      show ?thesis
      proof (cases "handleShortcut e fi ctx s1")
        case (Return p s2)
        with True ca exec sc show ?thesis
          by (intro disjI1) (auto simp add: launchDesktopEntry.simps Let_def chosen_action_def)
      next
        case UndefinedBehaviour
        with True ca exec sc show ?thesis
          by (intro disjI2) (auto simp add: launchDesktopEntry.simps Let_def chosen_action_def)
      next
        case OutOfFuel
        with True ca exec sc show ?thesis
          by (intro disjI2) (auto simp add: launchDesktopEntry.simps Let_def chosen_action_def)
      qed
    qed
  qed
qed

lemma launchDesktopEntry_mono:
  assumes mono: "\<And>e ps ctx s. launchPaths n e ps ctx s \<noteq> OutOfFuel \<Longrightarrow>
                   launchPaths (n + k) e ps ctx s = launchPaths n e ps ctx s"
    and "launchDesktopEntry n e fi ps ctx s \<noteq> OutOfFuel"
  shows "launchDesktopEntry (n + k) e fi ps ctx s = launchDesktopEntry n e fi ps ctx s"
  using launchDesktopEntry_shape [of e fi ps ctx s]
proof (elim disjE exE)
  fix d sp s1
  assume sh: "\<forall>m. launchDesktopEntry m e fi ps ctx s
                   = launchDesktopEntry_tail m e d sp ps ctx s1"
  with assms(2) have "launchDesktopEntry_tail n e d sp ps ctx s1 \<noteq> OutOfFuel" by simp
  from tail_mono [OF mono this] sh show ?thesis by simp
next
  fix r
  assume "\<forall>m. launchDesktopEntry m e fi ps ctx s = r"
  then show ?thesis by simp
qed

lemma step_mono:
  assumes mono: "\<And>e ps ctx s. launchPaths n e ps ctx s \<noteq> OutOfFuel \<Longrightarrow>
                   launchPaths (n + k) e ps ctx s = launchPaths n e ps ctx s"
    and "launchFiles_step n e ctx fi b s \<noteq> OutOfFuel"
  shows "launchFiles_step (n + k) e ctx fi b s = launchFiles_step n e ctx fi b s"
proof (cases "spec_bucket fi = DesktopEntry")
  case False
  then show ?thesis
    by (cases "spec_bucket fi") (simp_all add: launchFiles_step_one_bucket)
next
  case True
  with assms(2) have "launchDesktopEntry n e fi [] ctx s \<noteq> OutOfFuel"
    by (auto simp add: launchFiles_step_one_bucket keeping_def)
  from launchDesktopEntry_mono [OF mono this] True show ?thesis
    by (simp add: launchFiles_step_one_bucket)
qed

lemma classify_mono:
  assumes mono: "\<And>e ps ctx s. launchPaths n e ps ctx s \<noteq> OutOfFuel \<Longrightarrow>
                   launchPaths (n + k) e ps ctx s = launchPaths n e ps ctx s"
  shows "launchFiles_classify n e ctx fis b s \<noteq> OutOfFuel \<Longrightarrow>
         launchFiles_classify (n + k) e ctx fis b s = launchFiles_classify n e ctx fis b s"
proof (induction fis arbitrary: b s)
  case Nil
  show ?case by simp
next
  case (Cons fi fis)
  from Cons.prems have st: "launchFiles_step n e ctx fi b s \<noteq> OutOfFuel"
    by (auto split: result.splits)
  note eq = step_mono [OF mono st]
  show ?case
  proof (cases "launchFiles_step n e ctx fi b s")
    case (Return b1 s1)
    with Cons.prems have "launchFiles_classify n e ctx fis b1 s1 \<noteq> OutOfFuel" by simp
    from Cons.IH [OF this] Return eq show ?thesis by simp
  next
    case UndefinedBehaviour
    with eq show ?thesis by simp
  next
    case OutOfFuel
    with st show ?thesis by simp
  qed
qed

lemma launchFiles_mono_step:
  assumes mono: "\<And>e ps ctx s. launchPaths n e ps ctx s \<noteq> OutOfFuel \<Longrightarrow>
                   launchPaths (n + k) e ps ctx s = launchPaths n e ps ctx s"
    and ret: "launchFiles n e fis ctx s \<noteq> OutOfFuel"
  shows "launchFiles (n + k) e fis ctx s = launchFiles n e fis ctx s"
proof -
  from ret have c: "launchFiles_classify n e ctx fis no_buckets s \<noteq> OutOfFuel"
    by (auto simp add: launchFiles_batches)
  note ceq = classify_mono [OF mono c]
  show ?thesis
  proof (cases "launchFiles_classify n e ctx fis no_buckets s")
    case OutOfFuel
    with c show ?thesis by simp
  next
    case UndefinedBehaviour
    with ceq show ?thesis by (simp add: launchFiles_batches)
  next
    case (Return b s1)
    show ?thesis
    proof (cases "pathsToLaunch b = []")
      case True
      with Return ceq show ?thesis by (simp add: launchFiles_batches)
    next
      case False
      let ?s3 = "state_after s1 (cwd s1) (batch_events e ctx b s1)"
      from ret Return False have "launchPaths n e (pathsToLaunch b) ctx ?s3 \<noteq> OutOfFuel"
        by (auto simp add: launchFiles_batches returning_true_def)
      from mono [OF this] Return ceq False show ?thesis
        by (simp add: launchFiles_batches)
    qed
  qed
qed

lemma launchPaths_mono:
  "launchPaths n e ps ctx s \<noteq> OutOfFuel \<Longrightarrow>
   launchPaths (n + k) e ps ctx s = launchPaths n e ps ctx s"
proof (induction n arbitrary: e ps ctx s)
  case 0
  then show ?case by simp
next
  case (Suc n)
  from Suc.prems
  have r: "launchFiles n e (fileInfoJob e s ps) ctx (record_event (EFileInfoJob ps) s)
             \<noteq> OutOfFuel"
    by (auto simp add: Let_def split: result.splits)
  from launchFiles_mono_step [OF Suc.IH r] show ?case
    by (simp add: Let_def)
qed

lemma launchFiles_mono:
  "launchFiles n e fis ctx s \<noteq> OutOfFuel \<Longrightarrow>
   launchFiles (n + k) e fis ctx s = launchFiles n e fis ctx s"
  by (rule launchFiles_mono_step [OF launchPaths_mono])

subsection \<open>Re-dispatch without end, and a failure without report\<close>

lemma self_link_bucket:
  "launchFiles_step n loop_env ctx self_link b s =
     Return (b\<lparr>pathsToLaunch := pathsToLaunch b @ [FromLocalPath ''/home/u/link'']\<rparr>) s"
  by (simp add: launchFiles_step_one_bucket spec_bucket_def self_link_def plain_file_def
        handleShortcut_def loop_env_def demo_env_def demo_parse_scheme_def is_alpha_def
        isValid_def)

lemma self_link_never_returns:
  "launchFiles n loop_env [self_link] ctx s = OutOfFuel"
proof (induction n arbitrary: s)
  case 0
  show ?case
    by (simp add: launchFiles.simps self_link_bucket no_buckets_def)
next
  case (Suc n)
  have job: "fileInfoJob loop_env st [p] = [self_link]" for st p
    by (simp add: loop_env_def)
  show ?case
    by (simp add: launchFiles.simps [of "Suc n"] self_link_bucket no_buckets_def job Suc.IH)
qed

lemma no_application_unreported:
  "launchFiles 0 demo_env [c_png] None demo_state =
     Return True
       \<lparr>cwd = ''/home/u'',
        trace = [EDefaultForType ''image/png'', EChooseApp [c_png] ''image/png'']\<rparr>"
proof -
  have c: "launchFiles_classify 0 demo_env None [c_png] no_buckets demo_state =
      Return \<lparr>mimeTypeToFiles = [(''image/png'', [c_png])], folderInfos = [],
              pathsToLaunch = []\<rparr> demo_state"
    by (simp add: launchFiles_step_one_bucket demo_buckets no_buckets_def)
  have w: "walk_order demo_env [(''image/png'', [c_png])] = [(''image/png'', [c_png])]"
    by (simp add: walk_order_def)
  have m: "launchFiles_mimeTypes demo_env None [(''image/png'', [c_png])] demo_state =
      Return ()
       \<lparr>cwd = ''/home/u'',
        trace = [EDefaultForType ''image/png'', EChooseApp [c_png] ''image/png'']\<rparr>"
    by (simp add: chooseApp_def record_event_def demo_state_def demo_env_def)
  show ?thesis
    by (simp add: launchFiles.simps c w m
          del: launchFiles_classify.simps launchFiles_mimeTypes.simps)
qed




lemma failing_batch:
  "launchFiles 0 failing_env [a_txt, b_txt] None demo_state = Return True failing_state"
proof -
  have c: "launchFiles_classify 0 failing_env None [a_txt, b_txt] no_buckets demo_state =
      Return \<lparr>mimeTypeToFiles = [(''text/plain'', [a_txt, b_txt])], folderInfos = [],
              pathsToLaunch = []\<rparr> demo_state"
    by (simp add: launchFiles_step_one_bucket demo_buckets no_buckets_def)
  have w: "walk_order failing_env [(''text/plain'', [a_txt, b_txt])] =
      [(''text/plain'', [a_txt, b_txt])]"
    by (simp add: walk_order_def)
  have m: "launchFiles_mimeTypes failing_env None [(''text/plain'', [a_txt, b_txt])] demo_state =
      Return () failing_state"
    by (simp add: launchWithApp_def showError_def paths_def record_event_def demo_state_def
          failing_env_def demo_env_def demo_uri_def a_txt_def b_txt_def plain_file_def
          failing_state_def)
  show ?thesis
    by (simp add: launchFiles.simps c w m
          del: launchFiles_classify.simps launchFiles_mimeTypes.simps)
qed


end
